theory Spec2Isabelle
  imports Main
begin

section \<open>Screen and board geometry (main.py, constants)\<close>

definition SCREEN_WIDTH :: int where "SCREEN_WIDTH = 800"
definition SCREEN_HEIGHT :: int where "SCREEN_HEIGHT = 700"
definition BOARD_SIZE :: int where "BOARD_SIZE = 8"
definition SQUARE_SIZE :: int where "SQUARE_SIZE = 60"
definition BOARD_WIDTH :: int where "BOARD_WIDTH = BOARD_SIZE * SQUARE_SIZE"
definition BOARD_HEIGHT :: int where "BOARD_HEIGHT = BOARD_SIZE * SQUARE_SIZE"
definition BOARD_X :: int where "BOARD_X = (SCREEN_WIDTH - BOARD_WIDTH) div 2"
definition BOARD_Y :: int where "BOARD_Y = (SCREEN_HEIGHT - BOARD_HEIGHT - 80) div 2 + 40"
definition AI_MOVE_DELAY :: int where "AI_MOVE_DELAY = 500"

section \<open>The data of the rules library, as main.py uses it\<close>

text \<open>
  The rules library represents a colour as a boolean (white is \<open>True\<close>), which
  main.py relies on when it writes \<open>current_turn = not player_color\<close>; a square
  is an integer, \<open>square(file, rank) = rank * 8 + file\<close>.
\<close>

type_synonym color = bool

abbreviation (input) WHITE :: color where "WHITE \<equiv> True"
abbreviation (input) BLACK :: color where "BLACK \<equiv> False"

datatype piece_type = PAWN | KNIGHT | BISHOP | ROOK | QUEEN | KING

record piece =
  piece_type :: piece_type
  color :: color

record move =
  from_square :: int
  to_square :: int
  promotion :: "piece_type option"
  drop :: "piece_type option"

text \<open>
  The truth value of a move object, which \<open>if result.move:\<close> tests: a move is
  false exactly when it is the null move (from square 0 to square 0 with no promotion and
  no drop).
\<close>

definition move_bool :: "move \<Rightarrow> bool" where
  "move_bool m =
     (from_square m \<noteq> 0 \<or> to_square m \<noteq> 0 \<or> promotion m \<noteq> None \<or> drop m \<noteq> None)"

definition null_move :: move where
  "null_move = \<lparr>from_square = 0, to_square = 0, promotion = None, drop = None\<rparr>"

definition square :: "int \<Rightarrow> int \<Rightarrow> int" where
  "square file_index rank_index = rank_index * 8 + file_index"

definition square_file :: "int \<Rightarrow> int" where
  "square_file sq = sq mod 8"

definition square_rank :: "int \<Rightarrow> int" where
  "square_rank sq = sq div 8"

section \<open>get_square_from_mouse\<close>

text \<open>
  The board rectangle test of get_square_from_mouse and the screen column and row of
  a pointer position; \<open>//\<close> on Python integers is the flooring \<open>div\<close> on \<open>int\<close>.
\<close>

definition within_board :: "int \<times> int \<Rightarrow> bool" where
  "within_board pos =
     (case pos of (x, y) \<Rightarrow>
        BOARD_X \<le> x \<and> x < BOARD_X + BOARD_WIDTH \<and> BOARD_Y \<le> y \<and> y < BOARD_Y + BOARD_HEIGHT)"

definition screen_col :: "int \<times> int \<Rightarrow> int" where
  "screen_col pos = (fst pos - BOARD_X) div SQUARE_SIZE"

definition screen_row :: "int \<times> int \<Rightarrow> int" where
  "screen_row pos = (snd pos - BOARD_Y) div SQUARE_SIZE"

text \<open>The logical file and rank that get_square_from_mouse computes for a player colour.\<close>

definition mouse_file :: "color \<Rightarrow> int \<times> int \<Rightarrow> int" where
  "mouse_file player_col pos =
     (if player_col = WHITE then screen_col pos else BOARD_SIZE - 1 - screen_col pos)"

definition mouse_rank :: "color \<Rightarrow> int \<times> int \<Rightarrow> int" where
  "mouse_rank player_col pos =
     (if player_col = WHITE then BOARD_SIZE - 1 - screen_row pos else screen_row pos)"

definition get_square_from_mouse :: "color \<Rightarrow> int \<times> int \<Rightarrow> int option" where
  "get_square_from_mouse player_col pos =
     (if \<not> within_board pos then None
      else Some (square (mouse_file player_col pos) (mouse_rank player_col pos)))"

section \<open>The rules library and the engine as parameters\<close>

text \<open>
  Move legality, move application and the end-of-game tests are the rules library's,
  which is not part of the repository. The game code is modelled over any board type
  \<open>'b\<close> with the operations main.py calls on it.
\<close>

datatype termination_kind =
  CHECKMATE | STALEMATE | INSUFFICIENT_MATERIAL | SEVENTYFIVE_MOVES | FIVEFOLD_REPETITION
  | FIFTY_MOVES | THREEFOLD_REPETITION | VARIANT_WIN | VARIANT_LOSS | VARIANT_DRAW

record outcome =
  outcome_termination :: termination_kind
  winner :: "color option"

record 'b rules =
  new_board :: 'b
  piece_at :: "'b \<Rightarrow> int \<Rightarrow> piece option"
  turn :: "'b \<Rightarrow> color"
  is_legal :: "'b \<Rightarrow> move \<Rightarrow> bool"
  push :: "'b \<Rightarrow> move \<Rightarrow> 'b"
  is_game_over :: "'b \<Rightarrow> bool"
  board_outcome :: "'b \<Rightarrow> outcome option"
  is_check :: "'b \<Rightarrow> bool"

text \<open>
  What one call of engine.play does, seen from make_ai_move: a result carrying a move
  or none, an EngineError, or any other exception.
\<close>

datatype engine_reply = Result "move option" | Raises_EngineError | Raises_Exception

text \<open>The engine handle: a spawned engine configured with a skill level.\<close>

datatype engine_handle = Engine int

section \<open>Result strings (determine_game_outcome)\<close>

fun termination_name :: "termination_kind \<Rightarrow> string" where
  "termination_name CHECKMATE = ''CHECKMATE''"
| "termination_name STALEMATE = ''STALEMATE''"
| "termination_name INSUFFICIENT_MATERIAL = ''INSUFFICIENT_MATERIAL''"
| "termination_name SEVENTYFIVE_MOVES = ''SEVENTYFIVE_MOVES''"
| "termination_name FIVEFOLD_REPETITION = ''FIVEFOLD_REPETITION''"
| "termination_name FIFTY_MOVES = ''FIFTY_MOVES''"
| "termination_name THREEFOLD_REPETITION = ''THREEFOLD_REPETITION''"
| "termination_name VARIANT_WIN = ''VARIANT_WIN''"
| "termination_name VARIANT_LOSS = ''VARIANT_LOSS''"
| "termination_name VARIANT_DRAW = ''VARIANT_DRAW''"

definition is_upper :: "char \<Rightarrow> bool" where
  "is_upper c = (65 \<le> (of_char c :: nat) \<and> (of_char c :: nat) \<le> 90)"

definition is_lower :: "char \<Rightarrow> bool" where
  "is_lower c = (97 \<le> (of_char c :: nat) \<and> (of_char c :: nat) \<le> 122)"

definition to_upper :: "char \<Rightarrow> char" where
  "to_upper c = (if is_lower c then char_of ((of_char c :: nat) - 32) else c)"

definition to_lower :: "char \<Rightarrow> char" where
  "to_lower c = (if is_upper c then char_of ((of_char c :: nat) + 32) else c)"

text \<open>str.replace('_', ' ') and str.title() on ASCII text.\<close>

definition replace_underscores :: "string \<Rightarrow> string" where
  "replace_underscores s = map (\<lambda>c. if c = CHR ''_'' then CHR '' '' else c) s"

fun title_from :: "bool \<Rightarrow> string \<Rightarrow> string" where
  "title_from prev_cased [] = []"
| "title_from prev_cased (c # cs) =
     (if is_upper c \<or> is_lower c
      then (if prev_cased then to_lower c else to_upper c) # title_from True cs
      else c # title_from False cs)"

definition title :: "string \<Rightarrow> string" where
  "title s = title_from False s"

text \<open>
  \<open>str(outcome.termination)\<close> is \<open>Termination.NAME\<close>, so \<open>split('.')[1]\<close> is the
  member's name.
\<close>

definition termination_label :: "termination_kind \<Rightarrow> string" where
  "termination_label t = title (replace_underscores (termination_name t))"

definition determine_game_outcome :: "'b rules \<Rightarrow> 'b \<Rightarrow> string option" where
  "determine_game_outcome R b =
     (if is_game_over R b then
        (case board_outcome R b of
           Some oc \<Rightarrow>
             (let winner_color =
                    (if winner oc = Some WHITE then Some ''White''
                     else if winner oc = Some BLACK then Some ''Black'' else None);
                  term_label = termination_label (outcome_termination oc)
              in case winner_color of
                   Some w \<Rightarrow> Some (term_label @ ''! '' @ w @ '' Wins'')
                 | None \<Rightarrow> Some (term_label @ ''! Draw''))
         | None \<Rightarrow> Some ''Game Over: Unknown Reason'')
      else None)"

section \<open>The global game state of main.py\<close>

text \<open>
  The module's global variables, the \<open>running\<close> flag of the main loop, and one
  field that is not in the source: \<open>engine_calls\<close> records the position handed to
  each call of engine.play, so that "the engine is invoked" can be stated.
\<close>

record 'b game =
  chosen_skill_level :: int
  player_color :: color
  engine :: "engine_handle option"
  board :: 'b
  selected_square :: "int option"
  current_turn :: color
  ai_move_trigger_time :: "int option"
  status_text :: string
  info_text :: string
  game_over :: bool
  game_result_message :: "string option"
  running :: bool
  engine_calls :: "'b list"

text \<open>
  What the surroundings supply when a handler runs: the value pygame.time.get_ticks
  returns, and whether spawning and configuring the engine process succeeds.
\<close>

record env =
  ticks :: int
  spawn_ok :: bool

definition update_ui_text :: "'b rules \<Rightarrow> 'b game \<Rightarrow> 'b game" where
  "update_ui_text R s =
     s\<lparr>status_text :=
         (if turn R (board s) = WHITE then ''White'' else ''Black'') @ [CHR 0x27] @ ''s Turn'',
       info_text := (if \<not> game_over s \<and> is_check R (board s) then ''Check!'' else [])\<rparr>"

text \<open>
  initialize_engine drops the old handle, then spawns and configures a new engine; the
  errors it catches leave the handle None.
\<close>

definition initialize_engine :: "'b game \<Rightarrow> int \<Rightarrow> bool \<Rightarrow> 'b game" where
  "initialize_engine s skill_level ok =
     s\<lparr>engine := (if ok then Some (Engine skill_level) else None)\<rparr>"

definition reset_game :: "'b rules \<Rightarrow> 'b game \<Rightarrow> bool \<Rightarrow> env \<Rightarrow> 'b game" where
  "reset_game R s start_engine_if_needed e =
     (let s1 = (if start_engine_if_needed \<and> engine s = None
                then initialize_engine s (chosen_skill_level s) (spawn_ok e) else s);
          s2 = s1\<lparr>board := new_board R, selected_square := None, current_turn := WHITE,
                  ai_move_trigger_time := None, info_text := [], game_over := False,
                  game_result_message := None\<rparr>;
          s3 = update_ui_text R s2
      in if player_color s3 = BLACK \<and> \<not> game_over s3 \<and> engine s3 \<noteq> None
         then s3\<lparr>ai_move_trigger_time := Some (ticks e + 100)\<rparr> else s3)"

definition resign_game :: "'b rules \<Rightarrow> 'b game \<Rightarrow> 'b game" where
  "resign_game R s =
     (if \<not> game_over s then
        (let resign_winner = (if player_color s = WHITE then ''Black'' else ''White'')
         in update_ui_text R
              (s\<lparr>game_over := True,
                 game_result_message := Some (resign_winner @ '' Wins by Resignation''),
                 info_text := []\<rparr>))
      else s)"

text \<open>The two assignments that follow every push: the flag and, when set, the message.\<close>

definition recompute_game_over :: "'b rules \<Rightarrow> 'b game \<Rightarrow> 'b game" where
  "recompute_game_over R s =
     (let s1 = s\<lparr>game_over := is_game_over R (board s)\<rparr>
      in if game_over s1
         then s1\<lparr>game_result_message := determine_game_outcome R (board s1)\<rparr> else s1)"

text \<open>
  make_ai_move. The branch that pushes is taken when \<open>result.move\<close> is true: a
  move is there and it is not the null move; otherwise the branch "AI could not find a
  move" runs. \<open>no_move\<close> names that branch.
\<close>

definition make_ai_move :: "'b rules \<Rightarrow> 'b game \<Rightarrow> engine_reply \<Rightarrow> 'b game" where
  "make_ai_move R s reply =
     (if engine s \<noteq> None \<and> turn R (board s) \<noteq> player_color s \<and> \<not> game_over s then
        (let s0 = s\<lparr>engine_calls := engine_calls s @ [board s]\<rparr>;
             no_move =
               (let s2 = update_ui_text R (recompute_game_over R s0)
                in if \<not> game_over s2
                   then s2\<lparr>current_turn := player_color s2\<rparr> else s2);
             s1 = (case reply of
                     Result (Some m) \<Rightarrow>
                       if move_bool m then
                         update_ui_text R
                           (recompute_game_over R
                              (s0\<lparr>board := push R (board s0) m,
                                  current_turn := player_color s0\<rparr>))
                       else no_move
                   | Result None \<Rightarrow> no_move
                   | Raises_EngineError \<Rightarrow>
                       update_ui_text R (s0\<lparr>current_turn := player_color s0\<rparr>)
                   | Raises_Exception \<Rightarrow>
                       update_ui_text R (s0\<lparr>current_turn := player_color s0\<rparr>))
         in s1\<lparr>ai_move_trigger_time := None\<rparr>)
      else s)"

section \<open>Buttons\<close>

datatype action = Reset_game | Resign_game

text \<open>A button, without the fields that only drawing reads.\<close>

record button =
  rect :: "int \<times> int \<times> int \<times> int"
  action :: "action option"
  is_active :: bool

text \<open>Rect.collidepoint: the left and top edges are inside, the right and bottom are not.\<close>

definition collidepoint :: "int \<times> int \<times> int \<times> int \<Rightarrow> int \<times> int \<Rightarrow> bool" where
  "collidepoint r pos =
     (case r of (rx, ry, rw, rh) \<Rightarrow>
        case pos of (x, y) \<Rightarrow> rx \<le> x \<and> x < rx + rw \<and> ry \<le> y \<and> y < ry + rh)"

definition button_y :: int where "button_y = BOARD_Y + BOARD_HEIGHT + 20"
definition button_width :: int where "button_width = 120"
definition button_height :: int where "button_height = 40"
definition button_spacing :: int where "button_spacing = 30"
definition total_button_width :: int where
  "total_button_width = button_width * 2 + button_spacing"
definition start_x :: int where "start_x = (SCREEN_WIDTH - total_button_width) div 2"

definition new_game_button :: button where
  "new_game_button =
     \<lparr>rect = (start_x, button_y, button_width, button_height),
      action = Some Reset_game, is_active = True\<rparr>"

definition resign_button :: button where
  "resign_button =
     \<lparr>rect = (start_x + button_width + button_spacing, button_y, button_width, button_height),
      action = Some Resign_game, is_active = True\<rparr>"

definition game_buttons :: "button list" where
  "game_buttons = [new_game_button, resign_button]"

text \<open>
  Calling a button's action. The game buttons carry no bound argument, so reset_game runs
  with its default \<open>start_engine_if_needed=True\<close>.
\<close>

fun run_action :: "'b rules \<Rightarrow> action \<Rightarrow> 'b game \<Rightarrow> env \<Rightarrow> 'b game" where
  "run_action R Reset_game s e = reset_game R s True e"
| "run_action R Resign_game s e = resign_game R s"

definition handle_click ::
  "'b rules \<Rightarrow> button \<Rightarrow> int \<times> int \<Rightarrow> 'b game \<Rightarrow> env \<Rightarrow> bool \<times> 'b game" where
  "handle_click R b mouse_pos s e =
     (if is_active b \<and> collidepoint (rect b) mouse_pos then
        (case action b of
           Some a \<Rightarrow> (True, run_action R a s e)
         | None \<Rightarrow> (True, s))
      else (False, s))"

text \<open>
  The loop over game_buttons in the event handler: each button's is_active is set first
  (the resign button is active while the game is not over), and the loop stops at the
  first button that takes the click.
\<close>

fun check_game_buttons ::
  "'b rules \<Rightarrow> button list \<Rightarrow> int \<times> int \<Rightarrow> 'b game \<Rightarrow> env \<Rightarrow> bool \<times> 'b game" where
  "check_game_buttons R [] click_pos s e = (False, s)"
| "check_game_buttons R (b # bs) click_pos s e =
     (let b1 = b\<lparr>is_active := (if action b = Some Resign_game then \<not> game_over s else True)\<rparr>
      in case handle_click R b1 click_pos s e of
           (True, s1) \<Rightarrow> (True, s1)
         | (False, s1) \<Rightarrow> check_game_buttons R bs click_pos s1 e)"

section \<open>Board interaction and the frame step (main)\<close>

definition owned_by :: "piece option \<Rightarrow> color \<Rightarrow> bool" where
  "owned_by p c = (case p of None \<Rightarrow> False | Some q \<Rightarrow> color q = c)"

text \<open>The move main builds from the selected to the clicked square, queen promotion included.\<close>

definition build_move :: "'b rules \<Rightarrow> 'b game \<Rightarrow> int \<Rightarrow> int \<Rightarrow> move" where
  "build_move R s sel clicked_square =
     (let mv = \<lparr>from_square = sel, to_square = clicked_square, promotion = None,
                drop = None\<rparr>
      in case piece_at R (board s) sel of
           None \<Rightarrow> mv
         | Some moving_piece \<Rightarrow>
             if piece_type moving_piece = PAWN then
               (let target_rank = square_rank clicked_square;
                    is_promotion_rank =
                      ((player_color s = WHITE \<and> target_rank = 7)
                       \<or> (player_color s = BLACK \<and> target_rank = 0))
                in if is_promotion_rank then mv\<lparr>promotion := Some QUEEN\<rparr> else mv)
             else mv)"

definition apply_player_move :: "'b rules \<Rightarrow> 'b game \<Rightarrow> move \<Rightarrow> int \<Rightarrow> 'b game" where
  "apply_player_move R s mv now =
     (let s1 = update_ui_text R
                 (recompute_game_over R
                    (s\<lparr>board := push R (board s) mv, selected_square := None,
                       current_turn := (\<not> player_color s)\<rparr>))
      in if \<not> game_over s1 \<and> engine s1 \<noteq> None
         then s1\<lparr>ai_move_trigger_time := Some now\<rparr> else s1)"

definition board_interaction :: "'b rules \<Rightarrow> 'b game \<Rightarrow> int \<times> int \<Rightarrow> int \<Rightarrow> 'b game" where
  "board_interaction R s click_pos now =
     (case get_square_from_mouse (player_color s) click_pos of
        None \<Rightarrow> s\<lparr>selected_square := None\<rparr>
      | Some clicked_square \<Rightarrow>
          (let pc = piece_at R (board s) clicked_square
           in case selected_square s of
                None \<Rightarrow>
                  if owned_by pc (player_color s)
                  then s\<lparr>selected_square := Some clicked_square\<rparr>
                  else s\<lparr>selected_square := None\<rparr>
              | Some sel \<Rightarrow>
                  (let mv = build_move R s sel clicked_square
                   in if is_legal R (board s) mv then apply_player_move R s mv now
                      else if clicked_square = sel then s\<lparr>selected_square := None\<rparr>
                      else if owned_by pc (player_color s)
                      then s\<lparr>selected_square := Some clicked_square\<rparr>
                      else s)))"

datatype event = QUIT | MOUSEBUTTONDOWN int "int \<times> int" | OTHER_EVENT

definition handle_event :: "'b rules \<Rightarrow> 'b game \<Rightarrow> event \<times> env \<Rightarrow> 'b game" where
  "handle_event R s ev =
     (case ev of
        (QUIT, e) \<Rightarrow> s\<lparr>running := False\<rparr>
      | (MOUSEBUTTONDOWN btn click_pos, e) \<Rightarrow>
          if btn = 1 then
            (case check_game_buttons R game_buttons click_pos s e of
               (button_clicked, s1) \<Rightarrow>
                 if \<not> button_clicked \<and> current_turn s1 = player_color s1 \<and> \<not> game_over s1
                 then board_interaction R s1 click_pos (ticks e) else s1)
          else s
      | (OTHER_EVENT, e) \<Rightarrow> s)"

fun handle_events :: "'b rules \<Rightarrow> 'b game \<Rightarrow> (event \<times> env) list \<Rightarrow> 'b game" where
  "handle_events R s [] = s"
| "handle_events R s (ev # evs) = handle_events R (handle_event R s ev) evs"

text \<open>The "AI Move Timing" block that ends the event handling of every frame.\<close>

definition ai_move_timing :: "'b rules \<Rightarrow> 'b game \<Rightarrow> int \<Rightarrow> engine_reply \<Rightarrow> 'b game" where
  "ai_move_timing R s current_time reply =
     (if \<not> game_over s \<and> current_turn s \<noteq> player_color s \<and> engine s \<noteq> None then
        (case ai_move_trigger_time s of
           None \<Rightarrow> s
         | Some trigger \<Rightarrow>
             if current_time - trigger \<ge> AI_MOVE_DELAY then make_ai_move R s reply else s)
      else s)"

text \<open>
  One iteration of the game loop in the playing state: the queued events, each with what
  the surroundings supply while it is handled, then the engine check with the clock
  reading and what the engine would answer.
\<close>

record frame_input =
  events :: "(event \<times> env) list"
  ai_ticks :: int
  ai_reply :: engine_reply

definition frame :: "'b rules \<Rightarrow> 'b game \<Rightarrow> frame_input \<Rightarrow> 'b game" where
  "frame R s fi = ai_move_timing R (handle_events R s (events fi)) (ai_ticks fi) (ai_reply fi)"

text \<open>\<open>while running:\<close> over a finite list of frames.\<close>

fun run_frames :: "'b rules \<Rightarrow> 'b game \<Rightarrow> frame_input list \<Rightarrow> 'b game" where
  "run_frames R s [] = s"
| "run_frames R s (fi # fis) = (if running s then run_frames R (frame R s fi) fis else s)"

text \<open>
  The globals as the module initialises them, and the state in which main enters the
  game loop: skill and colour set, initialize_engine called, then reset_game with
  \<open>start_engine_if_needed=False\<close>.
\<close>

definition initial_globals :: "'b rules \<Rightarrow> 'b game" where
  "initial_globals R =
     \<lparr>chosen_skill_level = 0, player_color = WHITE, engine = None, board = new_board R,
      selected_square = None, current_turn = WHITE, ai_move_trigger_time = None,
      status_text = [], info_text = [], game_over = False, game_result_message = None,
      running = True, engine_calls = []\<rparr>"

definition start_playing :: "'b rules \<Rightarrow> int \<Rightarrow> color \<Rightarrow> env \<Rightarrow> 'b game" where
  "start_playing R skill col e =
     reset_game R
       (initialize_engine ((initial_globals R)\<lparr>chosen_skill_level := skill, player_color := col\<rparr>)
          skill (spawn_ok e))
       False e"

section \<open>A small rules object for worked examples\<close>

text \<open>
  A board is the list of occupied squares with the side to move. This rules object
  generates pawn pushes and knight jumps only, so a move it accepts from the starting
  position is a legal chess move; pushing moves the piece and passes the turn; the game
  is over when the side to move has no king left.
\<close>

record mini_board =
  pieces :: "(int \<times> piece) list"
  side_to_move :: color

definition put :: "int \<Rightarrow> piece_type \<Rightarrow> color \<Rightarrow> int \<times> piece" where
  "put sq t c = (sq, \<lparr>piece_type = t, color = c\<rparr>)"

definition start_pieces :: "(int \<times> piece) list" where
  "start_pieces =
     [put 0 ROOK WHITE, put 1 KNIGHT WHITE, put 2 BISHOP WHITE, put 3 QUEEN WHITE,
      put 4 KING WHITE, put 5 BISHOP WHITE, put 6 KNIGHT WHITE, put 7 ROOK WHITE,
      put 8 PAWN WHITE, put 9 PAWN WHITE, put 10 PAWN WHITE, put 11 PAWN WHITE,
      put 12 PAWN WHITE, put 13 PAWN WHITE, put 14 PAWN WHITE, put 15 PAWN WHITE,
      put 48 PAWN BLACK, put 49 PAWN BLACK, put 50 PAWN BLACK, put 51 PAWN BLACK,
      put 52 PAWN BLACK, put 53 PAWN BLACK, put 54 PAWN BLACK, put 55 PAWN BLACK,
      put 56 ROOK BLACK, put 57 KNIGHT BLACK, put 58 BISHOP BLACK, put 59 QUEEN BLACK,
      put 60 KING BLACK, put 61 BISHOP BLACK, put 62 KNIGHT BLACK, put 63 ROOK BLACK]"

definition mini_new_board :: mini_board where
  "mini_new_board = \<lparr>pieces = start_pieces, side_to_move = WHITE\<rparr>"

definition mini_piece_at :: "mini_board \<Rightarrow> int \<Rightarrow> piece option" where
  "mini_piece_at b sq = map_of (pieces b) sq"

definition pawn_push_ok :: "mini_board \<Rightarrow> color \<Rightarrow> int \<Rightarrow> int \<Rightarrow> bool" where
  "pawn_push_ok b c f t =
     (let d = (if c = WHITE then 8 else - 8) in
        (t = f + d \<and> mini_piece_at b t = None \<and> square_rank t \<noteq> (if c = WHITE then 7 else 0))
        \<or> (t = f + 2 * d \<and> square_rank f = (if c = WHITE then 1 else 6)
            \<and> mini_piece_at b (f + d) = None \<and> mini_piece_at b t = None))"

definition knight_jump_ok :: "mini_board \<Rightarrow> color \<Rightarrow> int \<Rightarrow> int \<Rightarrow> bool" where
  "knight_jump_ok b c f t =
     (let df = \<bar>square_file t - square_file f\<bar>; dr = \<bar>square_rank t - square_rank f\<bar> in
        ((df = 1 \<and> dr = 2) \<or> (df = 2 \<and> dr = 1))
        \<and> (case mini_piece_at b t of None \<Rightarrow> True | Some q \<Rightarrow> color q \<noteq> c))"

definition mini_is_legal :: "mini_board \<Rightarrow> move \<Rightarrow> bool" where
  "mini_is_legal b m =
     (case mini_piece_at b (from_square m) of
        None \<Rightarrow> False
      | Some p \<Rightarrow>
          color p = side_to_move b \<and> 0 \<le> to_square m \<and> to_square m \<le> 63
          \<and> promotion m = None \<and> drop m = None
          \<and> (if piece_type p = PAWN
               then pawn_push_ok b (color p) (from_square m) (to_square m)
             else if piece_type p = KNIGHT
               then knight_jump_ok b (color p) (from_square m) (to_square m)
             else False))"

definition mini_push :: "mini_board \<Rightarrow> move \<Rightarrow> mini_board" where
  "mini_push b m =
     \<lparr>pieces =
        (case mini_piece_at b (from_square m) of
           None \<Rightarrow> pieces b
         | Some p \<Rightarrow>
             (to_square m, p)
             # filter (\<lambda>e. fst e \<noteq> from_square m \<and> fst e \<noteq> to_square m) (pieces b)),
      side_to_move = (\<not> side_to_move b)\<rparr>"

definition mini_is_game_over :: "mini_board \<Rightarrow> bool" where
  "mini_is_game_over b =
     (\<not> list_ex (\<lambda>e. piece_type (snd e) = KING \<and> color (snd e) = side_to_move b) (pieces b))"

definition mini_outcome :: "mini_board \<Rightarrow> outcome option" where
  "mini_outcome b =
     (if mini_is_game_over b
      then Some \<lparr>outcome_termination = VARIANT_WIN, winner = Some (\<not> side_to_move b)\<rparr>
      else None)"

definition mini_rules :: "mini_board rules" where
  "mini_rules =
     \<lparr>new_board = mini_new_board, piece_at = mini_piece_at, turn = side_to_move,
      is_legal = mini_is_legal, push = mini_push, is_game_over = mini_is_game_over,
      board_outcome = mini_outcome, is_check = (\<lambda>b. False)\<rparr>"

section \<open>Notions the properties below are stated with\<close>

text \<open>
  The source keeps two indications of whose turn it is: the flag current_turn, which the
  frame's engine check reads, and the position's side to move, which make_ai_move reads.
  It is the engine's turn when both say so.
\<close>

definition engine_to_move :: "'b rules \<Rightarrow> 'b game \<Rightarrow> bool" where
  "engine_to_move R s = (current_turn s \<noteq> player_color s \<and> turn R (board s) \<noteq> player_color s)"

text \<open>Example data: a game entered as Black with an engine, and the move e2-e4.\<close>

definition black_start :: "mini_board game" where
  "black_start = start_playing mini_rules 0 BLACK \<lparr>ticks = 0, spawn_ok = True\<rparr>"

definition e2e4 :: move where
  "e2e4 = \<lparr>from_square = 12, to_square = 28, promotion = None, drop = None\<rparr>"

text \<open>A left click inside the New Game button: the only event that calls reset_game.\<close>

definition new_game_click :: "event \<times> env \<Rightarrow> bool" where
  "new_game_click ev =
     (case ev of
        (MOUSEBUTTONDOWN btn click_pos, e) \<Rightarrow>
          btn = 1 \<and> collidepoint (rect new_game_button) click_pos
      | _ \<Rightarrow> False)"

text \<open>
  The selected square, if any, holds a piece of the human's colour; and a square is
  selected only while the turn flag is the human's.
\<close>

definition selection_ok :: "'b rules \<Rightarrow> 'b game \<Rightarrow> bool" where
  "selection_ok R s =
     (case selected_square s of
        None \<Rightarrow> True
      | Some sq \<Rightarrow> owned_by (piece_at R (board s) sq) (player_color s))"

definition select_inv :: "'b rules \<Rightarrow> 'b game \<Rightarrow> bool" where
  "select_inv R s =
     (selection_ok R s \<and> (current_turn s = player_color s \<or> selected_square s = None))"

text \<open>
  Example data: a game entered as White with an engine, clicks on the squares e2, e4
  and e5 of the unflipped board, and the state after e2 has been clicked.
\<close>

definition white_start :: "mini_board game" where
  "white_start = start_playing mini_rules 0 WHITE \<lparr>ticks = 0, spawn_ok = True\<rparr>"

definition click_e2 :: "event \<times> env" where
  "click_e2 = (MOUSEBUTTONDOWN 1 (400, 470), \<lparr>ticks = 1000, spawn_ok = True\<rparr>)"

definition click_e4 :: "event \<times> env" where
  "click_e4 = (MOUSEBUTTONDOWN 1 (400, 350), \<lparr>ticks = 2000, spawn_ok = True\<rparr>)"

definition click_e5 :: "event \<times> env" where
  "click_e5 = (MOUSEBUTTONDOWN 1 (400, 290), \<lparr>ticks = 2000, spawn_ok = True\<rparr>)"

definition e2_selected :: "mini_board game" where
  "e2_selected = handle_event mini_rules white_start click_e2"

text \<open>No event of these frames is a left click inside the New Game button.\<close>

definition no_reset :: "frame_input list \<Rightarrow> bool" where
  "no_reset fis = list_all (\<lambda>fi. list_all (\<lambda>ev. \<not> new_game_click ev) (events fi)) fis"

text \<open>While the game-over flag is clear, the position is not over for the rules library.\<close>

definition flag_sync :: "'b rules \<Rightarrow> 'b game \<Rightarrow> bool" where
  "flag_sync R s = (game_over s \<or> \<not> is_game_over R (board s))"

text \<open>Example frames: a click on e4 and an engine check that would return e2-e4.\<close>

definition late_frame :: frame_input where
  "late_frame = \<lparr>events = [click_e4], ai_ticks = 10000, ai_reply = Result (Some e2e4)\<rparr>"

text \<open>
  The engine replies after which make_ai_move pushes nothing: a result with no move or
  with the null move, an EngineError, or another exception.
\<close>

definition failed_reply :: "engine_reply \<Rightarrow> bool" where
  "failed_reply r =
     (case r of
        Result None \<Rightarrow> True
      | Result (Some m) \<Rightarrow> \<not> move_bool m
      | Raises_EngineError \<Rightarrow> True
      | Raises_Exception \<Rightarrow> True)"

text \<open>Frames that carry no input event.\<close>

definition no_events :: "frame_input list \<Rightarrow> bool" where
  "no_events fis = list_all (\<lambda>fi. events fi = []) fis"

text \<open>
  Example frames: the engine check fires and the engine raises an EngineError, or
  returns the null move.
\<close>

definition failing_frame :: frame_input where
  "failing_frame = \<lparr>events = [], ai_ticks = 600, ai_reply = Raises_EngineError\<rparr>"

definition null_move_frame :: frame_input where
  "null_move_frame = \<lparr>events = [], ai_ticks = 600, ai_reply = Result (Some null_move)\<rparr>"

text \<open>
  A state \<open>s\<close> in which, compared with \<open>s0\<close>, nothing of the play has moved: still
  no engine, and the same colours, turn flag, position, selection, trigger and engine
  calls.
\<close>

definition stalled :: "'b game \<Rightarrow> 'b game \<Rightarrow> bool" where
  "stalled s0 s =
     (engine s = None \<and> player_color s = player_color s0 \<and> current_turn s = current_turn s0
      \<and> board s = board s0 \<and> selected_square s = selected_square s0
      \<and> ai_move_trigger_time s = ai_move_trigger_time s0 \<and> engine_calls s = engine_calls s0)"

text \<open>No engine, no armed trigger, and no engine call so far.\<close>

definition quiet :: "'b game \<Rightarrow> bool" where
  "quiet s = (engine s = None \<and> ai_move_trigger_time s = None \<and> engine_calls s = [])"

text \<open>Every attempt to spawn the engine during these frames fails.\<close>

definition no_spawn :: "frame_input list \<Rightarrow> bool" where
  "no_spawn fis = list_all (\<lambda>fi. list_all (\<lambda>ev. \<not> spawn_ok (snd ev)) (events fi)) fis"

text \<open>
  Example data: a game entered as White when the engine cannot be spawned, a frame in
  which the human plays e2-e4, and a later frame in which the human clicks d2 and d4.
\<close>

definition lone_click :: "int \<Rightarrow> int \<Rightarrow> event \<times> env" where
  "lone_click x y = (MOUSEBUTTONDOWN 1 (x, y), \<lparr>ticks = 5000, spawn_ok = False\<rparr>)"

definition alone_start :: "mini_board game" where
  "alone_start = start_playing mini_rules 0 WHITE \<lparr>ticks = 0, spawn_ok = False\<rparr>"

definition first_move_frame :: frame_input where
  "first_move_frame =
     \<lparr>events = [lone_click 400 470, lone_click 400 350], ai_ticks = 6000,
      ai_reply = Raises_EngineError\<rparr>"

definition second_move_frame :: frame_input where
  "second_move_frame =
     \<lparr>events = [lone_click 340 470, lone_click 340 350], ai_ticks = 9000,
      ai_reply = Raises_EngineError\<rparr>"

definition alone_after_e4 :: "mini_board game" where
  "alone_after_e4 = run_frames mini_rules alone_start [first_move_frame]"

text \<open>
  Three facts about the rules library that the agreement of the turn flag with the
  position rests on: a new board has White to move, a push passes the turn, and a legal
  move starts from a piece of the side to move.
\<close>

definition turns_alternate :: "'b rules \<Rightarrow> bool" where
  "turns_alternate R =
     (turn R (new_board R) = WHITE
      \<and> (\<forall>b m. turn R (push R b m) = (\<not> turn R b))
      \<and> (\<forall>b m. is_legal R b m \<longrightarrow> owned_by (piece_at R b (from_square m)) (turn R b)))"

text \<open>While the game-over flag is clear there is no result message.\<close>

definition message_inv :: "'b game \<Rightarrow> bool" where
  "message_inv s = (game_over s \<or> game_result_message s = None)"

text \<open>When the turn flag is not the human's colour, neither is the position's side to move.\<close>

definition turn_inv :: "'b rules \<Rightarrow> 'b game \<Rightarrow> bool" where
  "turn_inv R s =
     (select_inv R s
      \<and> (current_turn s = player_color s \<or> turn R (board s) \<noteq> player_color s))"

section \<open>The payment pages (chess_fundraiser_app)\<close>

text \<open>stripe_config.py: the two settings the handlers below read.\<close>

definition ENABLE_SIMULATION :: bool where "ENABLE_SIMULATION = True"

definition YOUR_DOMAIN :: string where "YOUR_DOMAIN = ''http://localhost:5000''"

text \<open>The view functions of app.py and the paths their route decorators bind them to.\<close>

datatype endpoint =
  Index | Checkout | Success | Game_settings | Start_game | Debug_info | Webhook

fun url_for :: "endpoint \<Rightarrow> string" where
  "url_for Index = ''/''"
| "url_for Checkout = ''/checkout''"
| "url_for Success = ''/success''"
| "url_for Game_settings = ''/settings''"
| "url_for Start_game = ''/start-game''"
| "url_for Debug_info = ''/debug''"
| "url_for Webhook = ''/webhook''"

text \<open>
  A response is a redirect (location and status code), a JSON error body with its
  status, or a rendered template. The views that are not modelled answer Unmodelled.
\<close>

datatype response =
  Redirect string int | Json_error string int | Rendered string | Unmodelled

definition redirect :: "string \<Rightarrow> response" where
  "redirect location = Redirect location 302"

text \<open>
  The payment service: what Session.create and Session.retrieve would answer (Inl is a
  raised exception with its message), and the calls a handler made to it.
\<close>

record checkout_session =
  session_ident :: string
  session_url :: string
  payment_status :: string

record payment_service =
  session_create :: "string + checkout_session"
  session_retrieve :: "string \<Rightarrow> string + checkout_session"

datatype service_call = Session_create | Session_retrieve string

record handled =
  response :: response
  service_calls :: "service_call list"
  printed :: "string list"

definition checkout :: "bool \<Rightarrow> payment_service \<Rightarrow> handled" where
  "checkout simulation svc =
     (if simulation then
        \<lparr>response = redirect (url_for Success), service_calls = [],
         printed = [''Simulating Stripe Checkout (ENABLE_SIMULATION=True)'']\<rparr>
      else
        (case session_create svc of
           Inr cs \<Rightarrow>
             \<lparr>response = Redirect (session_url cs) 303, service_calls = [Session_create],
              printed = [''Created Stripe checkout session: '' @ session_ident cs]\<rparr>
         | Inl err \<Rightarrow>
             \<lparr>response = Json_error err 500, service_calls = [Session_create],
              printed = [''Error creating Stripe checkout session: '' @ err]\<rparr>))"

text \<open>
  success reads the query argument session_id (the first value of that name); an absent
  or empty one is falsy.
\<close>

definition success :: "(string \<times> string) list \<Rightarrow> payment_service \<Rightarrow> handled" where
  "success query svc =
     (let session_id = map_of query ''session_id'';
          verification =
            (case session_id of
               None \<Rightarrow>
                 ([], [''No session_id provided. This is either a simulated payment or direct access.''])
             | Some sid \<Rightarrow>
                 if sid = [] then
                   ([], [''No session_id provided. This is either a simulated payment or direct access.''])
                 else
                   (case session_retrieve svc sid of
                      Inr cs \<Rightarrow>
                        if payment_status cs = ''paid''
                        then ([Session_retrieve sid],
                              [''Verified successful payment for session '' @ sid])
                        else ([Session_retrieve sid],
                              [''Payment not complete for session '' @ sid])
                    | Inl err \<Rightarrow>
                        ([Session_retrieve sid], [''Error verifying payment: '' @ err])))
      in \<lparr>response = redirect (url_for Game_settings), service_calls = fst verification,
          printed = snd verification\<rparr>)"

definition game_settings :: handled where
  "game_settings =
     \<lparr>response = Rendered ''settings.html'', service_calls = [],
      printed = [''Loading game settings page...'']\<rparr>"

definition index :: handled where
  "index = \<lparr>response = Rendered ''index.html'', service_calls = [],
            printed = [''Rendering index.html'']\<rparr>"

text \<open>A request: its path and its query arguments.\<close>

record request =
  path :: string
  query :: "(string \<times> string) list"

definition serve :: "bool \<Rightarrow> payment_service \<Rightarrow> request \<Rightarrow> handled" where
  "serve simulation svc req =
     (if path req = url_for Index then index
      else if path req = url_for Checkout then checkout simulation svc
      else if path req = url_for Success then success (query req) svc
      else if path req = url_for Game_settings then game_settings
      else \<lparr>response = Unmodelled, service_calls = [], printed = []\<rparr>)"

text \<open>
  The request a browser sends when it follows a redirect to a location of this
  application: the text before the first question mark is the path, the rest is split
  into name=value pairs at the ampersands.
\<close>

fun split_at :: "char \<Rightarrow> string \<Rightarrow> string \<times> string" where
  "split_at c [] = ([], [])"
| "split_at c (x # xs) =
     (if x = c then ([], xs) else (case split_at c xs of (a, b) \<Rightarrow> (x # a, b)))"

fun split_all :: "char \<Rightarrow> string \<Rightarrow> string \<Rightarrow> string list" where
  "split_all c acc [] = [rev acc]"
| "split_all c acc (x # xs) =
     (if x = c then rev acc # split_all c [] xs else split_all c (x # acc) xs)"

definition parse_query :: "string \<Rightarrow> (string \<times> string) list" where
  "parse_query q = (if q = [] then [] else map (split_at (CHR ''='')) (split_all (CHR ''&'') [] q))"

definition request_of :: "string \<Rightarrow> request" where
  "request_of location =
     (case split_at (CHR ''?'') location of (p, q) \<Rightarrow> \<lparr>path = p, query = parse_query q\<rparr>)"

definition is_local :: "string \<Rightarrow> bool" where
  "is_local location = (take 1 location = ''/'')"

text \<open>
  Following redirects within the application, at most \<open>n\<close> times; the calls to the
  payment service and the printed lines of all handlers on the way are collected.
\<close>

fun follow :: "nat \<Rightarrow> bool \<Rightarrow> payment_service \<Rightarrow> request \<Rightarrow> handled" where
  "follow 0 simulation svc req = serve simulation svc req"
| "follow (Suc n) simulation svc req =
     (let h = serve simulation svc req in
        case response h of
          Redirect location code \<Rightarrow>
            if is_local location then
              (let h2 = follow n simulation svc (request_of location)
               in h2\<lparr>service_calls := service_calls h @ service_calls h2,
                     printed := printed h @ printed h2\<rparr>)
            else h
        | _ \<Rightarrow> h)"

text \<open>Example data: a payment service whose every call raises, and a paid session.\<close>

definition down_service :: payment_service where
  "down_service =
     \<lparr>session_create = Inl ''connection refused'',
      session_retrieve = (\<lambda>sid. Inl ''connection refused'')\<rparr>"

definition unpaid_service :: payment_service where
  "unpaid_service =
     \<lparr>session_create = Inl ''connection refused'',
      session_retrieve =
        (\<lambda>sid. Inr \<lparr>session_ident = sid, session_url = ''https://pay.example/c'',
                     payment_status = ''unpaid''\<rparr>)\<rparr>"

section \<open>Properties of get_square_from_mouse\<close>

lemmas geometry_defs =
  SCREEN_WIDTH_def SCREEN_HEIGHT_def BOARD_SIZE_def SQUARE_SIZE_def
  BOARD_WIDTH_def BOARD_HEIGHT_def BOARD_X_def BOARD_Y_def

lemma screen_col_bounds:
  assumes "within_board pos"
  shows "0 \<le> screen_col pos \<and> screen_col pos \<le> 7"
proof -
  obtain x y where p: "pos = (x, y)" by (cases pos)
  from assms p have "0 \<le> x - 160 \<and> x - 160 < 480"
    by (simp add: within_board_def geometry_defs)
  then have "0 \<le> (x - 160) div 60 \<and> (x - 160) div 60 \<le> 7" by linarith
  with p show ?thesis by (simp add: screen_col_def geometry_defs)
qed

lemma screen_row_bounds:
  assumes "within_board pos"
  shows "0 \<le> screen_row pos \<and> screen_row pos \<le> 7"
proof -
  obtain x y where p: "pos = (x, y)" by (cases pos)
  from assms p have "0 \<le> y - 110 \<and> y - 110 < 480"
    by (simp add: within_board_def geometry_defs)
  then have "0 \<le> (y - 110) div 60 \<and> (y - 110) div 60 \<le> 7" by linarith
  with p show ?thesis by (simp add: screen_row_def geometry_defs)
qed

lemma mouse_file_bounds:
  "within_board pos \<Longrightarrow> 0 \<le> mouse_file pc pos \<and> mouse_file pc pos \<le> 7"
  using screen_col_bounds [of pos] by (simp add: mouse_file_def BOARD_SIZE_def)

lemma mouse_rank_bounds:
  "within_board pos \<Longrightarrow> 0 \<le> mouse_rank pc pos \<and> mouse_rank pc pos \<le> 7"
  using screen_row_bounds [of pos] by (simp add: mouse_rank_def BOARD_SIZE_def)

text \<open>
  Claim C10. For every pointer coordinate and both orientations, get_square_from_mouse
  returns None exactly when the coordinate is outside the board rectangle
  [BOARD_X, BOARD_X+BOARD_WIDTH) x [BOARD_Y, BOARD_Y+BOARD_HEIGHT); otherwise it returns
  the square built from a file and a rank that each lie in 0..7, and that square index
  lies in 0..63.
\<close>

theorem get_square_from_mouse_in_range:
  "(get_square_from_mouse pc (x, y) = None) =
     (\<not> (BOARD_X \<le> x \<and> x < BOARD_X + BOARD_WIDTH \<and> BOARD_Y \<le> y \<and> y < BOARD_Y + BOARD_HEIGHT))
   \<and> (\<forall>sq. get_square_from_mouse pc (x, y) = Some sq \<longrightarrow>
         sq = square (mouse_file pc (x, y)) (mouse_rank pc (x, y))
         \<and> 0 \<le> mouse_file pc (x, y) \<and> mouse_file pc (x, y) \<le> 7
         \<and> 0 \<le> mouse_rank pc (x, y) \<and> mouse_rank pc (x, y) \<le> 7
         \<and> 0 \<le> sq \<and> sq \<le> 63)"
proof (cases "within_board (x, y)")
  case False
  then show ?thesis by (simp add: get_square_from_mouse_def within_board_def)
next
  case True
  have f: "0 \<le> mouse_file pc (x, y) \<and> mouse_file pc (x, y) \<le> 7"
    using True by (rule mouse_file_bounds)
  have r: "0 \<le> mouse_rank pc (x, y) \<and> mouse_rank pc (x, y) \<le> 7"
    using True by (rule mouse_rank_bounds)
  have s: "0 \<le> square (mouse_file pc (x, y)) (mouse_rank pc (x, y))
           \<and> square (mouse_file pc (x, y)) (mouse_rank pc (x, y)) \<le> 63"
    using f r by (simp add: square_def)
  have n: "get_square_from_mouse pc (x, y)
           = Some (square (mouse_file pc (x, y)) (mouse_rank pc (x, y)))"
    using True by (simp add: get_square_from_mouse_def)
  have w: "BOARD_X \<le> x \<and> x < BOARD_X + BOARD_WIDTH \<and> BOARD_Y \<le> y \<and> y < BOARD_Y + BOARD_HEIGHT"
    using True by (simp add: within_board_def)
  show ?thesis using f r s n w by simp
qed

theorem get_square_from_mouse_in_range_witness:
  "get_square_from_mouse BLACK (400, 290) = Some 27
   \<and> mouse_file BLACK (400, 290) = 3 \<and> mouse_rank BLACK (400, 290) = 3
   \<and> get_square_from_mouse WHITE (159, 110) = None"
  using get_square_from_mouse_in_range [of BLACK 400 290]
        get_square_from_mouse_in_range [of WHITE 159 110]
  by (simp add: get_square_from_mouse_def within_board_def mouse_file_def mouse_rank_def
      screen_col_def screen_row_def square_def geometry_defs)

section \<open>Evaluation and projection lemmas\<close>

lemmas mini_defs =
  mini_rules_def mini_new_board_def mini_piece_at_def mini_is_legal_def mini_push_def
  mini_is_game_over_def mini_outcome_def pawn_push_ok_def knight_jump_ok_def
  start_pieces_def put_def

lemmas game_defs =
  start_playing_def initial_globals_def initialize_engine_def reset_game_def
  update_ui_text_def resign_game_def recompute_game_over_def make_ai_move_def
  handle_click_def owned_by_def build_move_def apply_player_move_def
  board_interaction_def handle_event_def ai_move_timing_def frame_def
  get_square_from_mouse_def within_board_def mouse_file_def mouse_rank_def
  screen_col_def screen_row_def square_def square_rank_def square_file_def
  collidepoint_def AI_MOVE_DELAY_def

lemma update_ui_text_fields [simp]:
  "chosen_skill_level (update_ui_text R s) = chosen_skill_level s"
  "player_color (update_ui_text R s) = player_color s"
  "engine (update_ui_text R s) = engine s"
  "board (update_ui_text R s) = board s"
  "selected_square (update_ui_text R s) = selected_square s"
  "current_turn (update_ui_text R s) = current_turn s"
  "ai_move_trigger_time (update_ui_text R s) = ai_move_trigger_time s"
  "game_over (update_ui_text R s) = game_over s"
  "game_result_message (update_ui_text R s) = game_result_message s"
  "running (update_ui_text R s) = running s"
  "engine_calls (update_ui_text R s) = engine_calls s"
  by (simp_all add: update_ui_text_def)

lemma recompute_game_over_fields [simp]:
  "chosen_skill_level (recompute_game_over R s) = chosen_skill_level s"
  "player_color (recompute_game_over R s) = player_color s"
  "engine (recompute_game_over R s) = engine s"
  "board (recompute_game_over R s) = board s"
  "selected_square (recompute_game_over R s) = selected_square s"
  "current_turn (recompute_game_over R s) = current_turn s"
  "ai_move_trigger_time (recompute_game_over R s) = ai_move_trigger_time s"
  "running (recompute_game_over R s) = running s"
  "engine_calls (recompute_game_over R s) = engine_calls s"
  "game_over (recompute_game_over R s) = is_game_over R (board s)"
  "game_result_message (recompute_game_over R s) =
     (if is_game_over R (board s) then determine_game_outcome R (board s)
      else game_result_message s)"
  by (simp_all add: recompute_game_over_def Let_def)

lemma termination_label_example:
  "termination_label INSUFFICIENT_MATERIAL = ''Insufficient Material''"
  by code_simp

lemma termination_label_checkmate: "termination_label CHECKMATE = ''Checkmate''"
  by code_simp

text \<open>What determine_game_outcome returns, branch by branch.\<close>

lemma determine_game_outcome_values:
  "\<not> is_game_over R b \<Longrightarrow> determine_game_outcome R b = None"
  "is_game_over R b \<Longrightarrow> board_outcome R b = None
     \<Longrightarrow> determine_game_outcome R b = Some ''Game Over: Unknown Reason''"
  "is_game_over R b \<Longrightarrow> board_outcome R b = Some oc \<Longrightarrow> winner oc = Some WHITE
     \<Longrightarrow> determine_game_outcome R b
         = Some (termination_label (outcome_termination oc) @ ''! White Wins'')"
  "is_game_over R b \<Longrightarrow> board_outcome R b = Some oc \<Longrightarrow> winner oc = Some BLACK
     \<Longrightarrow> determine_game_outcome R b
         = Some (termination_label (outcome_termination oc) @ ''! Black Wins'')"
  "is_game_over R b \<Longrightarrow> board_outcome R b = Some oc \<Longrightarrow> winner oc = None
     \<Longrightarrow> determine_game_outcome R b
         = Some (termination_label (outcome_termination oc) @ ''! Draw'')"
  by (simp_all add: determine_game_outcome_def Let_def)

text \<open>
  The null move is not pushed: make_ai_move treats it as no move. With the position not
  over it hands the turn back and leaves the position as it is.
\<close>

lemma null_move_not_pushed:
  assumes "engine s \<noteq> None" "turn R (board s) \<noteq> player_color s" "\<not> game_over s"
  shows "make_ai_move R s (Result (Some null_move)) = make_ai_move R s (Result None)"
  using assms by (simp add: make_ai_move_def Let_def move_bool_def null_move_def)

section \<open>The engine's move (make_ai_move and the frame's engine check)\<close>




section \<open>Clicks on the board\<close>

lemmas button_defs =
  button_y_def button_width_def button_height_def button_spacing_def
  total_button_width_def start_x_def new_game_button_def resign_button_def game_buttons_def

lemma check_game_buttons_eq:
  "check_game_buttons R game_buttons pos s e =
     (if collidepoint (rect new_game_button) pos then (True, reset_game R s True e)
      else if \<not> game_over s \<and> collidepoint (rect resign_button) pos
      then (True, resign_game R s) else (False, s))"
  by (simp add: game_buttons_def handle_click_def new_game_button_def resign_button_def)

lemma board_click_hits_no_button:
  assumes "within_board pos"
  shows "check_game_buttons R game_buttons pos s e = (False, s)"
proof -
  obtain x y where p: "pos = (x, y)" by (cases pos)
  from assms p have "y < 590" by (simp add: within_board_def geometry_defs)
  then have "\<not> collidepoint (rect new_game_button) pos" "\<not> collidepoint (rect resign_button) pos"
    using p by (simp_all add: collidepoint_def button_defs geometry_defs)
  then show ?thesis by (simp add: check_game_buttons_eq)
qed

lemma get_square_Some_within: "get_square_from_mouse c pos = Some sq \<Longrightarrow> within_board pos"
  by (simp add: get_square_from_mouse_def split: if_splits)

lemma apply_player_move_fields [simp]:
  "board (apply_player_move R s mv now) = push R (board s) mv"
  "selected_square (apply_player_move R s mv now) = None"
  "current_turn (apply_player_move R s mv now) = (\<not> player_color s)"
  "player_color (apply_player_move R s mv now) = player_color s"
  "engine (apply_player_move R s mv now) = engine s"
  "engine_calls (apply_player_move R s mv now) = engine_calls s"
  "game_over (apply_player_move R s mv now) = is_game_over R (push R (board s) mv)"
  by (simp_all add: apply_player_move_def Let_def)

lemma build_move_fields:
  "from_square (build_move R s sel sq) = sel"
  "to_square (build_move R s sel sq) = sq"
  "promotion (build_move R s sel sq) =
     (if (\<exists>p. piece_at R (board s) sel = Some p \<and> piece_type p = PAWN)
          \<and> ((player_color s = WHITE \<and> square_rank sq = 7)
              \<or> (player_color s = BLACK \<and> square_rank sq = 0))
      then Some QUEEN else None)"
  by (auto simp add: build_move_def Let_def split: option.splits)

lemma board_click_event:
  assumes "current_turn s = player_color s" "\<not> game_over s"
    and "get_square_from_mouse (player_color s) pos = Some sq"
  shows "handle_event R s (MOUSEBUTTONDOWN 1 pos, e) = board_interaction R s pos (ticks e)"
proof -
  have "check_game_buttons R game_buttons pos s e = (False, s)"
    using get_square_Some_within [OF assms(3)] by (rule board_click_hits_no_button)
  then show ?thesis using assms(1,2) by (simp add: handle_event_def)
qed

lemma selected_click_event:
  assumes "selected_square s = Some sel" and "current_turn s = player_color s"
    and "\<not> game_over s" and "get_square_from_mouse (player_color s) pos = Some sq"
  shows "handle_event R s (MOUSEBUTTONDOWN 1 pos, e) =
           (if is_legal R (board s) (build_move R s sel sq)
              then apply_player_move R s (build_move R s sel sq) (ticks e)
            else if sq = sel then s\<lparr>selected_square := None\<rparr>
            else if owned_by (piece_at R (board s) sq) (player_color s)
              then s\<lparr>selected_square := Some sq\<rparr>
            else s)"
proof -
  have "handle_event R s (MOUSEBUTTONDOWN 1 pos, e) = board_interaction R s pos (ticks e)"
    using assms(2,3,4) by (rule board_click_event)
  also have "\<dots> = (if is_legal R (board s) (build_move R s sel sq)
              then apply_player_move R s (build_move R s sel sq) (ticks e)
            else if sq = sel then s\<lparr>selected_square := None\<rparr>
            else if owned_by (piece_at R (board s) sq) (player_color s)
              then s\<lparr>selected_square := Some sq\<rparr>
            else s)"
    using assms(1,4) by (simp add: board_interaction_def Let_def)
  finally show ?thesis .
qed

lemma white_start_eq:
  "white_start =
     \<lparr>chosen_skill_level = 0, player_color = WHITE, engine = Some (Engine 0),
      board = mini_new_board, selected_square = None, current_turn = WHITE,
      ai_move_trigger_time = None, status_text = ''White'' @ [CHR 0x27] @ ''s Turn'',
      info_text = [], game_over = False, game_result_message = None, running = True,
      engine_calls = []\<rparr>"
  by (simp add: white_start_def start_playing_def initial_globals_def initialize_engine_def
      reset_game_def update_ui_text_def Let_def mini_rules_def mini_new_board_def)

lemma e2_selected_eq: "e2_selected = white_start\<lparr>selected_square := Some 12\<rparr>"
proof -
  have sq: "get_square_from_mouse WHITE (400, 470) = Some 12"
    by (simp add: get_square_from_mouse_def within_board_def mouse_file_def mouse_rank_def
        screen_col_def screen_row_def square_def geometry_defs)
  have ev: "handle_event mini_rules white_start (MOUSEBUTTONDOWN 1 (400, 470), \<lparr>ticks = 1000, spawn_ok = True\<rparr>)
            = board_interaction mini_rules white_start (400, 470) 1000"
    using board_click_event [of white_start "(400, 470)" 12 mini_rules "\<lparr>ticks = 1000, spawn_ok = True\<rparr>"] sq
    by (simp add: white_start_eq)
  have own: "owned_by (piece_at mini_rules mini_new_board 12) WHITE"
    by (simp add: owned_by_def mini_defs)
  show ?thesis
    unfolding e2_selected_def click_e2_def ev
    using sq own by (simp add: board_interaction_def Let_def white_start_eq)
qed

text \<open>
  Claim C2, as stated, fails: with e2 selected in the starting position, a click on e5
  (an illegal move to an empty square) leaves e2 selected; the claim says the selection
  is cleared.
\<close>

theorem illegal_move_keeps_selection:
  "selected_square e2_selected = Some 12
   \<and> current_turn e2_selected = player_color e2_selected
   \<and> \<not> game_over e2_selected
   \<and> get_square_from_mouse (player_color e2_selected) (400, 290) = Some 36
   \<and> \<not> is_legal mini_rules (board e2_selected) (build_move mini_rules e2_selected 12 36)
   \<and> \<not> owned_by (piece_at mini_rules (board e2_selected) 36) (player_color e2_selected)
   \<and> selected_square (handle_event mini_rules e2_selected click_e5) = Some 12
   \<and> selected_square (handle_event mini_rules e2_selected click_e5) \<noteq> None"
proof -
  have sq: "get_square_from_mouse WHITE (400, 290) = Some 36"
    by (simp add: get_square_from_mouse_def within_board_def mouse_file_def mouse_rank_def
        screen_col_def screen_row_def square_def geometry_defs)
  have il: "\<not> is_legal mini_rules mini_new_board (build_move mini_rules e2_selected 12 36)"
    by (simp add: e2_selected_eq white_start_eq build_move_def Let_def mini_defs square_rank_def)
  have own: "\<not> owned_by (piece_at mini_rules mini_new_board 36) WHITE"
    by (simp add: owned_by_def mini_defs)
  have ev: "handle_event mini_rules e2_selected click_e5
            = board_interaction mini_rules e2_selected (400, 290) 2000"
    unfolding click_e5_def
    using board_click_event [of e2_selected "(400, 290)" 36 mini_rules "\<lparr>ticks = 2000, spawn_ok = True\<rparr>"] sq
    by (simp add: e2_selected_eq white_start_eq)
  have keep: "selected_square (board_interaction mini_rules e2_selected (400, 290) 2000) = Some 12"
    using sq il own by (simp add: board_interaction_def Let_def e2_selected_eq white_start_eq)
  show ?thesis
    using sq il own keep by (simp add: ev) (simp add: e2_selected_eq white_start_eq)
qed

text \<open>
  Claim C2, amended. For every board click while a square is selected, the turn flag is
  the human's and the game is not over: the move from the selected to the clicked square
  is built, with promotion to queen when the selected square holds a pawn and the
  clicked square is on the human's last rank; if that move is legal it is pushed and the
  selection is cleared; otherwise, if the clicked square is the selected one the
  selection is cleared; otherwise, if the clicked square holds a piece of the human's
  colour the selection moves there; otherwise the state, selection included, is left as
  it was.
\<close>

theorem click_with_selection:
  assumes "selected_square s = Some sel" and "current_turn s = player_color s"
    and "\<not> game_over s" and "get_square_from_mouse (player_color s) pos = Some sq"
  shows "handle_event R s (MOUSEBUTTONDOWN 1 pos, e) =
           (if is_legal R (board s) (build_move R s sel sq)
              then apply_player_move R s (build_move R s sel sq) (ticks e)
            else if sq = sel then s\<lparr>selected_square := None\<rparr>
            else if owned_by (piece_at R (board s) sq) (player_color s)
              then s\<lparr>selected_square := Some sq\<rparr>
            else s)
       \<and> board (apply_player_move R s (build_move R s sel sq) (ticks e))
           = push R (board s) (build_move R s sel sq)
       \<and> selected_square (apply_player_move R s (build_move R s sel sq) (ticks e)) = None
       \<and> from_square (build_move R s sel sq) = sel
       \<and> to_square (build_move R s sel sq) = sq
       \<and> promotion (build_move R s sel sq) =
           (if (\<exists>p. piece_at R (board s) sel = Some p \<and> piece_type p = PAWN)
                \<and> ((player_color s = WHITE \<and> square_rank sq = 7)
                    \<or> (player_color s = BLACK \<and> square_rank sq = 0))
            then Some QUEEN else None)"
  using selected_click_event [OF assms] by (simp add: build_move_fields)

theorem click_with_selection_witness:
  "piece_at mini_rules (board (handle_event mini_rules e2_selected click_e4)) 28
     = Some \<lparr>piece_type = PAWN, color = WHITE\<rparr>
   \<and> selected_square (handle_event mini_rules e2_selected click_e4) = None"
proof -
  let ?e = "\<lparr>ticks = 2000, spawn_ok = True\<rparr>"
  have a: "selected_square e2_selected = Some 12"
    by (simp add: e2_selected_eq)
  have b: "current_turn e2_selected = player_color e2_selected"
    by (simp add: e2_selected_eq white_start_eq)
  have c: "\<not> game_over e2_selected"
    by (simp add: e2_selected_eq white_start_eq)
  have d: "get_square_from_mouse (player_color e2_selected) (400, 350) = Some 28"
    by (simp add: e2_selected_eq white_start_eq get_square_from_mouse_def within_board_def
        mouse_file_def mouse_rank_def screen_col_def screen_row_def square_def geometry_defs)
  have mv: "build_move mini_rules e2_selected 12 28 = e2e4"
    by (simp add: e2_selected_eq white_start_eq build_move_def Let_def mini_defs
        square_rank_def e2e4_def)
  have lg: "is_legal mini_rules (board e2_selected) e2e4"
    by (simp add: e2_selected_eq white_start_eq mini_defs e2e4_def square_rank_def)
  have p28: "piece_at mini_rules (push mini_rules mini_new_board e2e4) 28
               = Some \<lparr>piece_type = PAWN, color = WHITE\<rparr>"
    by (simp add: mini_defs e2e4_def)
  have bd: "board e2_selected = mini_new_board"
    by (simp add: e2_selected_eq white_start_eq)
  show ?thesis
    unfolding click_e4_def
    using click_with_selection [OF a b c d, of mini_rules ?e] mv lg p28 bd by simp
qed

section \<open>The selected square\<close>

lemma make_ai_move_keeps [simp]:
  "selected_square (make_ai_move R s r) = selected_square s"
  "player_color (make_ai_move R s r) = player_color s"
  "engine (make_ai_move R s r) = engine s"
  "running (make_ai_move R s r) = running s"
  by (simp_all add: make_ai_move_def Let_def split: engine_reply.splits option.splits)

lemma reset_game_fields [simp]:
  "selected_square (reset_game R s b e) = None"
  "board (reset_game R s b e) = new_board R"
  "current_turn (reset_game R s b e) = WHITE"
  "game_over (reset_game R s b e) = False"
  "game_result_message (reset_game R s b e) = None"
  "player_color (reset_game R s b e) = player_color s"
  "engine_calls (reset_game R s b e) = engine_calls s"
  "running (reset_game R s b e) = running s"
  by (simp_all add: reset_game_def initialize_engine_def Let_def)

lemma resign_game_fields [simp]:
  "selected_square (resign_game R s) = selected_square s"
  "board (resign_game R s) = board s"
  "current_turn (resign_game R s) = current_turn s"
  "player_color (resign_game R s) = player_color s"
  "engine (resign_game R s) = engine s"
  "engine_calls (resign_game R s) = engine_calls s"
  "ai_move_trigger_time (resign_game R s) = ai_move_trigger_time s"
  "running (resign_game R s) = running s"
  by (simp_all add: resign_game_def Let_def)

lemma select_inv_reset: "select_inv R (reset_game R s b e)"
  by (simp add: select_inv_def selection_ok_def)

lemma select_inv_resign: "select_inv R s \<Longrightarrow> select_inv R (resign_game R s)"
  by (simp add: select_inv_def selection_ok_def split: option.splits)

lemma select_inv_board_interaction:
  assumes "select_inv R s" "current_turn s = player_color s"
  shows "select_inv R (board_interaction R s pos now)"
  using assms
  by (auto simp add: board_interaction_def select_inv_def selection_ok_def Let_def
      split: option.splits)

lemma select_inv_handle_event:
  assumes "select_inv R s"
  shows "select_inv R (handle_event R s ev)"
proof (cases ev)
  case (Pair x e)
  show ?thesis
  proof (cases x)
    case QUIT
    with Pair assms show ?thesis
      by (simp add: handle_event_def select_inv_def selection_ok_def split: option.splits)
  next
    case OTHER_EVENT
    with Pair assms show ?thesis by (simp add: handle_event_def)
  next
    case (MOUSEBUTTONDOWN btn pos)
    show ?thesis
      using assms Pair MOUSEBUTTONDOWN
      by (simp add: handle_event_def check_game_buttons_eq select_inv_reset select_inv_resign
          select_inv_board_interaction)
  qed
qed

lemma select_inv_handle_events:
  "select_inv R s \<Longrightarrow> select_inv R (handle_events R s evs)"
  by (induction evs arbitrary: s) (simp_all add: select_inv_handle_event)

lemma select_inv_ai_move_timing:
  "select_inv R s \<Longrightarrow> select_inv R (ai_move_timing R s now r)"
  by (auto simp add: ai_move_timing_def select_inv_def selection_ok_def split: option.splits)

lemma select_inv_frame: "select_inv R s \<Longrightarrow> select_inv R (frame R s fi)"
  by (simp add: frame_def select_inv_ai_move_timing select_inv_handle_events)

lemma select_inv_run_frames:
  "select_inv R s \<Longrightarrow> select_inv R (run_frames R s fis)"
  by (induction fis arbitrary: s) (simp_all add: select_inv_frame)

lemma new_selection_is_owned:
  assumes "selected_square (board_interaction R s pos now) = Some q"
    and "selected_square s \<noteq> Some q"
  shows "owned_by (piece_at R (board s) q) (player_color s)
         \<and> board (board_interaction R s pos now) = board s"
  using assms
  by (auto simp add: board_interaction_def Let_def split: option.splits if_splits)

text \<open>
  Claim C3. Start from any state with nothing selected (any position, any turn), run any
  number of frames and then any events of a further frame: if a square is selected in the
  state reached, the piece on it has the human player's colour, so it never holds a piece
  of the other colour. And whenever board_interaction newly selects a square (the initial
  selection and the re-selection are its only two assignments of a square), the piece on
  that square has the human player's colour.
\<close>

theorem selection_never_opponent:
  assumes "selected_square s0 = None"
    and "st = handle_events R (run_frames R s0 fis) evs"
    and "selected_square st = Some sq"
  shows "(\<exists>p. piece_at R (board st) sq = Some p \<and> color p = player_color st)
       \<and> \<not> (\<exists>p. piece_at R (board st) sq = Some p \<and> color p \<noteq> player_color st)
       \<and> (\<forall>s pos now q.
             selected_square (board_interaction R s pos now) = Some q
             \<and> selected_square s \<noteq> Some q
             \<longrightarrow> owned_by (piece_at R (board s) q) (player_color s))"
proof -
  have "select_inv R s0" using assms(1) by (simp add: select_inv_def selection_ok_def)
  then have "select_inv R st"
    unfolding assms(2) by (intro select_inv_handle_events select_inv_run_frames)
  then have "owned_by (piece_at R (board st) sq) (player_color st)"
    using assms(3) by (simp add: select_inv_def selection_ok_def)
  then have own: "\<exists>p. piece_at R (board st) sq = Some p \<and> color p = player_color st"
    by (simp add: owned_by_def split: option.splits)
  then have no: "\<not> (\<exists>p. piece_at R (board st) sq = Some p \<and> color p \<noteq> player_color st)"
    by auto
  show ?thesis using own no new_selection_is_owned by blast
qed

theorem selection_never_opponent_witness:
  "selected_square (handle_events mini_rules (run_frames mini_rules white_start []) [click_e2])
     = Some 12
   \<and> piece_at mini_rules
       (board (handle_events mini_rules (run_frames mini_rules white_start []) [click_e2])) 12
     = Some \<lparr>piece_type = PAWN, color = WHITE\<rparr>
   \<and> player_color (handle_events mini_rules (run_frames mini_rules white_start []) [click_e2])
     = WHITE"
proof -
  have st: "handle_events mini_rules (run_frames mini_rules white_start []) [click_e2] = e2_selected"
    by (simp add: e2_selected_def)
  have a: "selected_square white_start = None" by (simp add: white_start_eq)
  have c: "selected_square e2_selected = Some 12" by (simp add: e2_selected_eq)
  have p: "piece_at mini_rules (board e2_selected) 12 = Some \<lparr>piece_type = PAWN, color = WHITE\<rparr>"
    by (simp add: e2_selected_eq white_start_eq mini_defs)
  have pc: "player_color e2_selected = WHITE" by (simp add: e2_selected_eq white_start_eq)
  show ?thesis
    unfolding st
    using selection_never_opponent [OF a st [symmetric] c] c p pc by simp
qed

section \<open>After the game is over\<close>

lemma game_over_event_frozen:
  assumes "game_over s" "\<not> new_game_click ev"
  shows "\<exists>r. handle_event R s ev = s\<lparr>running := r\<rparr>"
proof (cases ev)
  case (Pair x e)
  show ?thesis
  proof (cases x)
    case QUIT
    with Pair show ?thesis by (auto simp add: handle_event_def)
  next
    case OTHER_EVENT
    with Pair have "handle_event R s ev = s\<lparr>running := running s\<rparr>"
      by (simp add: handle_event_def)
    then show ?thesis by blast
  next
    case (MOUSEBUTTONDOWN btn pos)
    with Pair assms have "handle_event R s ev = s\<lparr>running := running s\<rparr>"
      by (simp add: handle_event_def check_game_buttons_eq new_game_click_def)
    then show ?thesis by blast
  qed
qed

lemma game_over_events_frozen:
  "game_over s \<Longrightarrow> list_all (\<lambda>ev. \<not> new_game_click ev) evs
   \<Longrightarrow> \<exists>r. handle_events R s evs = s\<lparr>running := r\<rparr>"
proof (induction evs arbitrary: s)
  case Nil
  have "handle_events R s [] = s\<lparr>running := running s\<rparr>" by simp
  then show ?case by blast
next
  case (Cons ev evs)
  from Cons.prems obtain r where r: "handle_event R s ev = s\<lparr>running := r\<rparr>"
    using game_over_event_frozen [of s ev R] by auto
  have "game_over (s\<lparr>running := r\<rparr>)" using Cons.prems by simp
  from Cons.IH [OF this] Cons.prems obtain r' where
    "handle_events R (s\<lparr>running := r\<rparr>) evs = s\<lparr>running := r, running := r'\<rparr>"
    by auto
  then show ?case using r by auto
qed

lemma game_over_ai_frozen: "game_over s \<Longrightarrow> ai_move_timing R s now r = s"
  by (simp add: ai_move_timing_def)

lemma game_over_make_ai_move: "game_over s \<Longrightarrow> make_ai_move R s r = s"
  by (simp add: make_ai_move_def)

lemma game_over_frame_frozen:
  assumes "game_over s" "list_all (\<lambda>ev. \<not> new_game_click ev) (events fi)"
  shows "\<exists>r. frame R s fi = s\<lparr>running := r\<rparr>"
proof -
  from game_over_events_frozen [OF assms] obtain r where
    r: "handle_events R s (events fi) = s\<lparr>running := r\<rparr>" by blast
  have "game_over (s\<lparr>running := r\<rparr>)" using assms(1) by simp
  then show ?thesis using r by (auto simp add: frame_def game_over_ai_frozen)
qed

lemma game_over_run_frozen:
  "game_over s \<Longrightarrow> no_reset fis \<Longrightarrow> \<exists>r. run_frames R s fis = s\<lparr>running := r\<rparr>"
proof (induction fis arbitrary: s)
  case Nil
  have "run_frames R s [] = s\<lparr>running := running s\<rparr>" by simp
  then show ?case by blast
next
  case (Cons fi fis)
  show ?case
  proof (cases "running s")
    case False
    then have "run_frames R s (fi # fis) = s\<lparr>running := running s\<rparr>" by simp
    then show ?thesis by blast
  next
    case True
    from Cons.prems obtain r where r: "frame R s fi = s\<lparr>running := r\<rparr>"
      using game_over_frame_frozen [of s fi R] by (auto simp add: no_reset_def)
    have g: "game_over (s\<lparr>running := r\<rparr>)" using Cons.prems by simp
    have n: "no_reset fis" using Cons.prems by (simp add: no_reset_def)
    from Cons.IH [OF g n] obtain r' where
      "run_frames R (s\<lparr>running := r\<rparr>) fis = s\<lparr>running := r, running := r'\<rparr>" by auto
    then show ?thesis using True r by auto
  qed
qed

lemma resign_game_result:
  assumes "\<not> game_over s"
  shows "game_over (resign_game R s)"
    and "game_result_message (resign_game R s) =
           Some ((if player_color s = WHITE then ''Black'' else ''White'') @ '' Wins by Resignation'')"
  using assms by (simp_all add: resign_game_def Let_def)

lemma no_reset_late_frame: "no_reset [late_frame]"
  by (simp add: no_reset_def late_frame_def click_e4_def new_game_click_def collidepoint_def
      button_defs geometry_defs)

text \<open>
  Claim C5. A call of resign_game while the game is not over sets the game-over flag,
  sets the result message to the colour opposite the human's followed by "Wins by
  Resignation", and leaves the position unchanged. In every state reached from there by
  frames in which the New Game button is not clicked (so reset_game is not called), the
  game is still over with the same message, position and selection, and a mouse click
  anywhere on the board leaves the state exactly as it is.
\<close>

theorem resignation_ends_game:
  assumes "\<not> game_over s" and "no_reset fis" and "s2 = run_frames R (resign_game R s) fis"
  shows "game_over (resign_game R s)
       \<and> game_result_message (resign_game R s) =
           Some ((if player_color s = WHITE then ''Black'' else ''White'')
                 @ '' Wins by Resignation'')
       \<and> board (resign_game R s) = board s
       \<and> game_over s2 \<and> game_result_message s2 = game_result_message (resign_game R s)
       \<and> board s2 = board s \<and> selected_square s2 = selected_square s
       \<and> (\<forall>btn pos e. within_board pos \<longrightarrow>
             handle_event R s2 (MOUSEBUTTONDOWN btn pos, e) = s2)"
proof -
  have g: "game_over (resign_game R s)" using assms(1) by (rule resign_game_result)
  from game_over_run_frozen [OF g assms(2)] obtain r where
    r: "s2 = (resign_game R s)\<lparr>running := r\<rparr>" unfolding assms(3) by blast
  have click: "handle_event R s2 (MOUSEBUTTONDOWN btn pos, e) = s2"
    if "within_board pos" for btn pos e
    using that g r by (simp add: handle_event_def board_click_hits_no_button)
  show ?thesis
    using g resign_game_result(2) [OF assms(1)] r click by simp
qed

theorem resignation_ends_game_witness:
  "game_result_message (resign_game mini_rules e2_selected) = Some ''Black Wins by Resignation''
   \<and> game_over (run_frames mini_rules (resign_game mini_rules e2_selected) [late_frame])
   \<and> board (run_frames mini_rules (resign_game mini_rules e2_selected) [late_frame])
       = mini_new_board
   \<and> selected_square (run_frames mini_rules (resign_game mini_rules e2_selected) [late_frame])
       = Some 12"
proof -
  have a: "\<not> game_over e2_selected" by (simp add: e2_selected_eq white_start_eq)
  have pc: "player_color e2_selected = WHITE" by (simp add: e2_selected_eq white_start_eq)
  have bd: "board e2_selected = mini_new_board" by (simp add: e2_selected_eq white_start_eq)
  have sl: "selected_square e2_selected = Some 12" by (simp add: e2_selected_eq)
  show ?thesis
    using resignation_ends_game [OF a no_reset_late_frame refl, of mini_rules] pc bd sl
    by simp
qed

text \<open>
  Claim C7. If a trigger is armed when resign_game is called in a game that is not over,
  resign_game leaves the trigger timestamp in place, yet the frame's engine check and
  make_ai_move both leave the resigned state untouched whatever the clock and the engine
  would say, and over any frames without a click on New Game the position and the list
  of engine calls stay what they were: no engine move is applied before the next
  reset_game.
\<close>

theorem armed_trigger_dead_after_resignation:
  assumes "\<not> game_over s" and "ai_move_trigger_time s = Some t" and "no_reset fis"
  shows "ai_move_trigger_time (resign_game R s) = Some t
       \<and> (\<forall>now r. ai_move_timing R (resign_game R s) now r = resign_game R s)
       \<and> (\<forall>r. make_ai_move R (resign_game R s) r = resign_game R s)
       \<and> board (run_frames R (resign_game R s) fis) = board s
       \<and> engine_calls (run_frames R (resign_game R s) fis) = engine_calls s
       \<and> ai_move_trigger_time (run_frames R (resign_game R s) fis) = Some t"
proof -
  have g: "game_over (resign_game R s)" using assms(1) by (rule resign_game_result)
  from game_over_run_frozen [OF g assms(3)] obtain r where
    r: "run_frames R (resign_game R s) fis = (resign_game R s)\<lparr>running := r\<rparr>" by blast
  show ?thesis
    using g assms(2) by (simp add: r game_over_ai_frozen game_over_make_ai_move)
qed

theorem armed_trigger_dead_after_resignation_witness:
  "ai_move_trigger_time (resign_game mini_rules black_start) = Some 100
   \<and> board (run_frames mini_rules (resign_game mini_rules black_start) [late_frame])
       = mini_new_board
   \<and> engine_calls (run_frames mini_rules (resign_game mini_rules black_start) [late_frame]) = []
   \<and> ai_move_trigger_time (run_frames mini_rules (resign_game mini_rules black_start) [late_frame])
       = Some 100"
proof -
  have a: "\<not> game_over black_start"
    by (simp add: black_start_def game_defs mini_defs Let_def)
  have b: "ai_move_trigger_time black_start = Some 100"
    by (simp add: black_start_def game_defs mini_defs Let_def)
  have bd: "board black_start = mini_new_board"
    by (simp add: black_start_def game_defs mini_defs Let_def)
  have ec: "engine_calls black_start = []"
    by (simp add: black_start_def game_defs mini_defs Let_def)
  show ?thesis
    using armed_trigger_dead_after_resignation [OF a b no_reset_late_frame, of mini_rules] bd ec
    by simp
qed

section \<open>Engine failure\<close>

lemma flag_sync_reset:
  "\<not> is_game_over R (new_board R) \<Longrightarrow> flag_sync R (reset_game R s b e)"
  by (simp add: flag_sync_def)

lemma flag_sync_resign: "flag_sync R s \<Longrightarrow> flag_sync R (resign_game R s)"
  by (simp add: flag_sync_def resign_game_def Let_def)

lemma flag_sync_board_interaction:
  "flag_sync R s \<Longrightarrow> flag_sync R (board_interaction R s pos now)"
  by (simp add: board_interaction_def flag_sync_def Let_def split: option.splits)

lemma flag_sync_handle_event:
  assumes "\<not> is_game_over R (new_board R)" "flag_sync R s"
  shows "flag_sync R (handle_event R s ev)"
proof (cases ev)
  case (Pair x e)
  show ?thesis
  proof (cases x)
    case QUIT
    with Pair assms(2) show ?thesis by (simp add: handle_event_def flag_sync_def)
  next
    case OTHER_EVENT
    with Pair assms(2) show ?thesis by (simp add: handle_event_def)
  next
    case (MOUSEBUTTONDOWN btn pos)
    show ?thesis
      using assms Pair MOUSEBUTTONDOWN
      by (simp add: handle_event_def check_game_buttons_eq flag_sync_reset flag_sync_resign
          flag_sync_board_interaction)
  qed
qed

lemma flag_sync_handle_events:
  "\<not> is_game_over R (new_board R) \<Longrightarrow> flag_sync R s \<Longrightarrow> flag_sync R (handle_events R s evs)"
  by (induction evs arbitrary: s) (simp_all add: flag_sync_handle_event)

lemma flag_sync_make_ai_move: "flag_sync R s \<Longrightarrow> flag_sync R (make_ai_move R s r)"
  by (auto simp add: make_ai_move_def flag_sync_def Let_def split: engine_reply.splits option.splits)

lemma flag_sync_ai_move_timing: "flag_sync R s \<Longrightarrow> flag_sync R (ai_move_timing R s now r)"
  by (simp add: ai_move_timing_def flag_sync_make_ai_move split: option.splits)

lemma flag_sync_frame:
  "\<not> is_game_over R (new_board R) \<Longrightarrow> flag_sync R s \<Longrightarrow> flag_sync R (frame R s fi)"
  by (simp add: frame_def flag_sync_ai_move_timing flag_sync_handle_events)

lemma flag_sync_run_frames:
  "\<not> is_game_over R (new_board R) \<Longrightarrow> flag_sync R s \<Longrightarrow> flag_sync R (run_frames R s fis)"
  by (induction fis arbitrary: s) (simp_all add: flag_sync_frame)

lemma flag_sync_start_playing:
  "\<not> is_game_over R (new_board R) \<Longrightarrow> flag_sync R (start_playing R skill col e)"
  by (simp add: start_playing_def flag_sync_reset)

lemma make_ai_move_failure:
  assumes "engine s \<noteq> None" "turn R (board s) \<noteq> player_color s" "\<not> game_over s"
    and "\<not> is_game_over R (board s)" and "failed_reply r"
  shows "current_turn (make_ai_move R s r) = player_color s"
    and "ai_move_trigger_time (make_ai_move R s r) = None"
    and "board (make_ai_move R s r) = board s"
    and "engine_calls (make_ai_move R s r) = engine_calls s @ [board s]"
    and "game_over (make_ai_move R s r) = False"
proof -
  have cases: "r = Result None \<or> (\<exists>m. r = Result (Some m) \<and> \<not> move_bool m)
               \<or> r = Raises_EngineError \<or> r = Raises_Exception"
    using assms(5) by (auto simp add: failed_reply_def split: engine_reply.splits option.splits)
  show "current_turn (make_ai_move R s r) = player_color s"
    using assms(1-4) cases by (auto simp add: make_ai_move_def Let_def)
  show "ai_move_trigger_time (make_ai_move R s r) = None"
    using assms(1-4) cases by (auto simp add: make_ai_move_def Let_def)
  show "board (make_ai_move R s r) = board s"
    using assms(1-4) cases by (auto simp add: make_ai_move_def Let_def)
  show "engine_calls (make_ai_move R s r) = engine_calls s @ [board s]"
    using assms(1-4) cases by (auto simp add: make_ai_move_def Let_def)
  show "game_over (make_ai_move R s r) = False"
    using assms(1-4) cases by (auto simp add: make_ai_move_def Let_def)
qed

lemma idle_ai_move_timing:
  "current_turn s = player_color s \<Longrightarrow> ai_move_timing R s now r = s"
  by (simp add: ai_move_timing_def)

lemma idle_run_frames:
  "current_turn s = player_color s \<Longrightarrow> no_events fis \<Longrightarrow> run_frames R s fis = s"
  by (induction fis) (simp_all add: no_events_def frame_def idle_ai_move_timing)

text \<open>
  Claim C4. Take any state the game loop reaches from its start (the rules library's
  starting position not being over) and a frame that reaches its engine check with the
  game not over, the engine's turn, an engine available and the armed trigger elapsed by
  at least AI_MOVE_DELAY, so that the engine is invoked. If the engine returns no move
  (None or the null move) or raises an EngineError or another exception, then after that
  frame the turn flag is the human's colour, the trigger is None, the position is
  unchanged, the game is still not over, and the engine was called exactly once. The
  engine is not invoked again for that move: in the state reached the engine check does
  nothing whatever the clock reads and whatever the engine would answer, and over any
  number of further frames without input the state does not change at all.
\<close>

theorem engine_failure_hands_back:
  assumes lib: "\<not> is_game_over R (new_board R)"
    and s: "s = run_frames R (start_playing R skill col e0) fis"
    and s1: "s1 = handle_events R s (events fi)"
    and s2: "s2 = frame R s fi"
    and playing: "\<not> game_over s1"
    and engines_turn: "engine_to_move R s1"
    and available: "engine s1 \<noteq> None"
    and armed: "ai_move_trigger_time s1 = Some t"
    and elapsed: "ai_ticks fi - t \<ge> AI_MOVE_DELAY"
    and failed: "failed_reply (ai_reply fi)"
  shows "current_turn s2 = player_color s2
       \<and> player_color s2 = player_color s1
       \<and> ai_move_trigger_time s2 = None
       \<and> board s2 = board s1
       \<and> game_over s2 = False
       \<and> engine_calls s2 = engine_calls s1 @ [board s1]
       \<and> (\<forall>now r. ai_move_timing R s2 now r = s2)
       \<and> (\<forall>later. no_events later \<longrightarrow> run_frames R s2 later = s2)"
proof -
  have sync: "flag_sync R s1"
    unfolding s1 s
    by (intro flag_sync_handle_events flag_sync_run_frames flag_sync_start_playing lib)
  have turn: "turn R (board s1) \<noteq> player_color s1"
    and flag: "current_turn s1 \<noteq> player_color s1"
    using engines_turn by (simp_all add: engine_to_move_def)
  have fr: "s2 = make_ai_move R s1 (ai_reply fi)"
    using playing flag available armed elapsed
    by (simp add: s2 s1 frame_def ai_move_timing_def)
  have nv: "\<not> is_game_over R (board s1)" using sync playing by (simp add: flag_sync_def)
  note f = make_ai_move_failure [OF available turn playing nv failed]
  have pc: "player_color s2 = player_color s1" by (simp add: fr)
  have ct: "current_turn s2 = player_color s2" using f(1) pc by (simp add: fr)
  have idle: "ai_move_timing R s2 now r = s2" for now r
    using ct by (rule idle_ai_move_timing)
  have rest: "run_frames R s2 later = s2" if "no_events later" for later
    using ct that by (rule idle_run_frames)
  show ?thesis using ct pc f(2,3,4,5) idle rest by (simp add: fr)
qed

theorem engine_failure_hands_back_witness:
  "current_turn (frame mini_rules black_start failing_frame) = BLACK
   \<and> player_color (frame mini_rules black_start failing_frame) = BLACK
   \<and> ai_move_trigger_time (frame mini_rules black_start failing_frame) = None
   \<and> board (frame mini_rules black_start failing_frame) = mini_new_board
   \<and> engine_calls (frame mini_rules black_start failing_frame) = [mini_new_board]
   \<and> current_turn (frame mini_rules black_start null_move_frame) = BLACK
   \<and> board (frame mini_rules black_start null_move_frame) = mini_new_board
   \<and> engine_calls (frame mini_rules black_start null_move_frame) = [mini_new_board]"
proof -
  let ?e0 = "\<lparr>ticks = 0, spawn_ok = True\<rparr>"
  have lib: "\<not> is_game_over mini_rules (new_board mini_rules)" by (simp add: mini_defs)
  have s: "black_start = run_frames mini_rules (start_playing mini_rules 0 BLACK ?e0) []"
    by (simp add: black_start_def)
  have s1: "black_start = handle_events mini_rules black_start (events failing_frame)"
    by (simp add: failing_frame_def)
  have s1n: "black_start = handle_events mini_rules black_start (events null_move_frame)"
    by (simp add: null_move_frame_def)
  have a: "\<not> game_over black_start"
    by (simp add: black_start_def game_defs mini_defs Let_def)
  have b: "engine_to_move mini_rules black_start"
    by (simp add: engine_to_move_def black_start_def game_defs mini_defs Let_def)
  have c: "engine black_start \<noteq> None"
    by (simp add: black_start_def game_defs mini_defs Let_def)
  have d: "ai_move_trigger_time black_start = Some 100"
    by (simp add: black_start_def game_defs mini_defs Let_def)
  have e: "ai_ticks failing_frame - 100 \<ge> AI_MOVE_DELAY"
    by (simp add: AI_MOVE_DELAY_def failing_frame_def)
  have en: "ai_ticks null_move_frame - 100 \<ge> AI_MOVE_DELAY"
    by (simp add: AI_MOVE_DELAY_def null_move_frame_def)
  have failed: "failed_reply (ai_reply failing_frame)"
    by (simp add: failed_reply_def failing_frame_def)
  have failedn: "failed_reply (ai_reply null_move_frame)"
    by (simp add: failed_reply_def null_move_frame_def move_bool_def null_move_def)
  have bd: "board black_start = mini_new_board"
    by (simp add: black_start_def game_defs mini_defs Let_def)
  have ec: "engine_calls black_start = []"
    by (simp add: black_start_def game_defs mini_defs Let_def)
  have pc: "player_color black_start = BLACK"
    by (simp add: black_start_def game_defs mini_defs Let_def)
  show ?thesis
    using engine_failure_hands_back [OF lib s s1 refl a b c d e failed]
          engine_failure_hands_back [OF lib s s1n refl a b c d en failedn] bd ec pc
    by simp
qed

section \<open>Playing without an engine\<close>

lemma quiet_handle_event:
  assumes "quiet s" "\<not> spawn_ok (snd ev)"
  shows "quiet (handle_event R s ev)"
proof (cases ev)
  case (Pair x e)
  show ?thesis
  proof (cases x)
    case QUIT
    with Pair assms(1) show ?thesis by (simp add: handle_event_def quiet_def)
  next
    case OTHER_EVENT
    with Pair assms(1) show ?thesis by (simp add: handle_event_def)
  next
    case (MOUSEBUTTONDOWN btn pos)
    have r: "quiet (reset_game R s True e)"
      using assms Pair by (simp add: quiet_def reset_game_def initialize_engine_def Let_def)
    have g: "quiet (resign_game R s)" using assms(1) by (simp add: quiet_def)
    have b: "quiet (board_interaction R s pos now)" for now
      using assms(1)
      by (simp add: quiet_def board_interaction_def apply_player_move_def Let_def
          split: option.splits)
    show ?thesis
      using Pair MOUSEBUTTONDOWN assms(1) r g b
      by (simp add: handle_event_def check_game_buttons_eq)
  qed
qed

lemma quiet_handle_events:
  "quiet s \<Longrightarrow> list_all (\<lambda>ev. \<not> spawn_ok (snd ev)) evs \<Longrightarrow> quiet (handle_events R s evs)"
  by (induction evs arbitrary: s) (simp_all add: quiet_handle_event)

lemma quiet_ai_move_timing: "quiet s \<Longrightarrow> ai_move_timing R s now r = s"
  by (simp add: ai_move_timing_def quiet_def)

lemma quiet_frame:
  "quiet s \<Longrightarrow> list_all (\<lambda>ev. \<not> spawn_ok (snd ev)) (events fi) \<Longrightarrow> quiet (frame R s fi)"
  using quiet_ai_move_timing [of "handle_events R s (events fi)" R]
  by (simp add: frame_def quiet_handle_events)

lemma quiet_run_frames: "quiet s \<Longrightarrow> no_spawn fis \<Longrightarrow> quiet (run_frames R s fis)"
  by (induction fis arbitrary: s) (simp_all add: no_spawn_def quiet_frame)

lemma quiet_start_playing: "\<not> spawn_ok e \<Longrightarrow> quiet (start_playing R skill col e)"
  by (simp add: quiet_def start_playing_def reset_game_def initialize_engine_def
      initial_globals_def Let_def)

lemma no_engine_never_armed:
  assumes "\<not> spawn_ok e" and "no_spawn fis"
  shows "engine (run_frames R (start_playing R skill col e) fis) = None
       \<and> ai_move_trigger_time (run_frames R (start_playing R skill col e) fis) = None
       \<and> engine_calls (run_frames R (start_playing R skill col e) fis) = []"
  using quiet_run_frames [OF quiet_start_playing [OF assms(1)] assms(2)]
  by (simp add: quiet_def)

lemma alone_start_eq:
  "alone_start =
     \<lparr>chosen_skill_level = 0, player_color = WHITE, engine = None,
      board = mini_new_board, selected_square = None, current_turn = WHITE,
      ai_move_trigger_time = None, status_text = ''White'' @ [CHR 0x27] @ ''s Turn'',
      info_text = [], game_over = False, game_result_message = None, running = True,
      engine_calls = []\<rparr>"
  by (simp add: alone_start_def start_playing_def initial_globals_def initialize_engine_def
      reset_game_def update_ui_text_def Let_def mini_rules_def mini_new_board_def)

lemma alone_after_e4_fields:
  "engine alone_after_e4 = None"
  "player_color alone_after_e4 = WHITE"
  "current_turn alone_after_e4 = BLACK"
  "board alone_after_e4 = push mini_rules mini_new_board e2e4"
  "selected_square alone_after_e4 = None"
  "ai_move_trigger_time alone_after_e4 = None"
  "game_over alone_after_e4 = False"
proof -
  let ?e = "\<lparr>ticks = 5000, spawn_ok = False\<rparr>"
  have sq2: "get_square_from_mouse WHITE (400, 470) = Some 12"
    by (simp add: get_square_from_mouse_def within_board_def mouse_file_def mouse_rank_def
        screen_col_def screen_row_def square_def geometry_defs)
  have sq4: "get_square_from_mouse WHITE (400, 350) = Some 28"
    by (simp add: get_square_from_mouse_def within_board_def mouse_file_def mouse_rank_def
        screen_col_def screen_row_def square_def geometry_defs)
  have own: "owned_by (piece_at mini_rules mini_new_board 12) WHITE"
    by (simp add: owned_by_def mini_defs)
  have c1: "handle_event mini_rules alone_start (lone_click 400 470)
            = alone_start\<lparr>selected_square := Some 12\<rparr>"
    unfolding lone_click_def
    using board_click_event [of alone_start "(400, 470)" 12 mini_rules ?e] sq2 own
    by (simp add: alone_start_eq board_interaction_def Let_def)
  have mv: "build_move mini_rules (alone_start\<lparr>selected_square := Some 12\<rparr>) 12 28 = e2e4"
    by (simp add: alone_start_eq build_move_def Let_def mini_defs square_rank_def e2e4_def)
  have lg: "is_legal mini_rules mini_new_board e2e4"
    by (simp add: mini_defs e2e4_def square_rank_def)
  have ng: "\<not> is_game_over mini_rules (push mini_rules mini_new_board e2e4)"
    by (simp add: mini_defs e2e4_def)
  have c2: "handle_event mini_rules (alone_start\<lparr>selected_square := Some 12\<rparr>) (lone_click 400 350)
            = apply_player_move mini_rules (alone_start\<lparr>selected_square := Some 12\<rparr>) e2e4 5000"
    unfolding lone_click_def
    using selected_click_event [of "alone_start\<lparr>selected_square := Some 12\<rparr>" 12 "(400, 350)" 28
            mini_rules ?e] sq4 mv lg
    by (simp add: alone_start_eq)
  have rn: "running alone_start" by (simp add: alone_start_eq)
  have en: "engine (alone_start\<lparr>selected_square := Some 12\<rparr>) = None"
    by (simp add: alone_start_eq)
  have evs: "handle_events mini_rules alone_start (events first_move_frame)
            = apply_player_move mini_rules (alone_start\<lparr>selected_square := Some 12\<rparr>) e2e4 5000"
    by (simp add: first_move_frame_def c1 c2)
  have fr: "alone_after_e4
            = apply_player_move mini_rules (alone_start\<lparr>selected_square := Some 12\<rparr>) e2e4 5000"
    using rn en by (simp add: alone_after_e4_def frame_def evs ai_move_timing_def)
  show "engine alone_after_e4 = None" "player_color alone_after_e4 = WHITE"
    "current_turn alone_after_e4 = BLACK"
    "board alone_after_e4 = push mini_rules mini_new_board e2e4"
    "selected_square alone_after_e4 = None"
    "ai_move_trigger_time alone_after_e4 = None"
    "game_over alone_after_e4 = False"
    using ng by (simp_all add: fr alone_start_eq apply_player_move_def Let_def)
qed

lemma no_reset_second_move_frame: "no_reset [second_move_frame]"
  by (simp add: no_reset_def second_move_frame_def lone_click_def new_game_click_def
      collidepoint_def button_defs geometry_defs)

lemma stalled_refl: "engine s = None \<Longrightarrow> stalled s s"
  by (simp add: stalled_def)

lemma stalled_handle_event:
  assumes "stalled s0 s" "current_turn s0 \<noteq> player_color s0" "\<not> new_game_click ev"
  shows "stalled s0 (handle_event R s ev)"
proof (cases ev)
  case (Pair x e)
  show ?thesis
  proof (cases x)
    case QUIT
    with Pair assms(1) show ?thesis by (simp add: handle_event_def stalled_def)
  next
    case OTHER_EVENT
    with Pair assms(1) show ?thesis by (simp add: handle_event_def)
  next
    case (MOUSEBUTTONDOWN btn pos)
    show ?thesis
      using assms Pair MOUSEBUTTONDOWN
      by (simp add: handle_event_def check_game_buttons_eq new_game_click_def stalled_def)
  qed
qed

lemma stalled_handle_events:
  "stalled s0 s \<Longrightarrow> current_turn s0 \<noteq> player_color s0
   \<Longrightarrow> list_all (\<lambda>ev. \<not> new_game_click ev) evs \<Longrightarrow> stalled s0 (handle_events R s evs)"
  by (induction evs arbitrary: s) (simp_all add: stalled_handle_event)

lemma stalled_ai_move_timing: "stalled s0 s \<Longrightarrow> ai_move_timing R s now r = s"
  by (simp add: ai_move_timing_def stalled_def)

lemma stalled_frame:
  "stalled s0 s \<Longrightarrow> current_turn s0 \<noteq> player_color s0
   \<Longrightarrow> list_all (\<lambda>ev. \<not> new_game_click ev) (events fi) \<Longrightarrow> stalled s0 (frame R s fi)"
  using stalled_ai_move_timing [of s0 "handle_events R s (events fi)" R]
  by (simp add: frame_def stalled_handle_events)

lemma stalled_run_frames:
  "stalled s0 s \<Longrightarrow> current_turn s0 \<noteq> player_color s0 \<Longrightarrow> no_reset fis
   \<Longrightarrow> stalled s0 (run_frames R s fis)"
  by (induction fis arbitrary: s) (simp_all add: no_reset_def stalled_frame)

text \<open>
  Claim C6 says that with no engine no trigger is ever armed and the engine is never
  invoked (lemma no_engine_never_armed shows that much), and that human moves continue to
  be accepted. The code does otherwise on the last point: in any state with no engine in
  which the turn flag is not the human's colour (the state after the human's first move,
  or the starting state when the human plays Black), over any frames without a click on
  New Game the position, the selection and the turn flag never change, so no human move
  is accepted again.
\<close>

theorem no_engine_locks_human_out:
  assumes "engine s = None" and "current_turn s \<noteq> player_color s" and "no_reset fis"
  shows "board (run_frames R s fis) = board s
       \<and> selected_square (run_frames R s fis) = selected_square s
       \<and> current_turn (run_frames R s fis) = current_turn s
       \<and> player_color (run_frames R s fis) = player_color s
       \<and> current_turn (run_frames R s fis) \<noteq> player_color (run_frames R s fis)
       \<and> ai_move_trigger_time (run_frames R s fis) = ai_move_trigger_time s
       \<and> engine_calls (run_frames R s fis) = engine_calls s"
  using stalled_run_frames [OF stalled_refl [OF assms(1)] assms(2) assms(3), of R] assms(2)
  by (simp add: stalled_def)

theorem no_engine_locks_human_out_witness:
  "piece_at mini_rules (board alone_after_e4) 28 = Some \<lparr>piece_type = PAWN, color = WHITE\<rparr>
   \<and> engine alone_after_e4 = None
   \<and> game_over alone_after_e4 = False
   \<and> board (run_frames mini_rules alone_after_e4 [second_move_frame]) = board alone_after_e4
   \<and> selected_square (run_frames mini_rules alone_after_e4 [second_move_frame]) = None
   \<and> current_turn (run_frames mini_rules alone_after_e4 [second_move_frame]) = BLACK
   \<and> player_color (run_frames mini_rules alone_after_e4 [second_move_frame]) = WHITE
   \<and> ai_move_trigger_time (run_frames mini_rules alone_after_e4 [second_move_frame]) = None"
proof -
  have a: "engine alone_after_e4 = None" by (rule alone_after_e4_fields)
  have b: "current_turn alone_after_e4 \<noteq> player_color alone_after_e4"
    by (simp add: alone_after_e4_fields)
  have p28: "piece_at mini_rules (push mini_rules mini_new_board e2e4) 28
               = Some \<lparr>piece_type = PAWN, color = WHITE\<rparr>"
    by (simp add: mini_defs e2e4_def)
  show ?thesis
    using no_engine_locks_human_out [OF a b no_reset_second_move_frame, of mini_rules] p28
    by (simp add: alone_after_e4_fields del: run_frames.simps)
qed

section \<open>The checkout and success pages\<close>

text \<open>
  Claim C8. With simulation mode enabled, every request to the checkout endpoint is
  answered by a redirect to the success page without a call to the payment service; the
  request a browser then sends to that location is answered by the success handler with a
  redirect to the settings page, again without a call to the payment service; so
  following the redirects from checkout ends on the rendered settings page with no call
  to the payment service on the way.
\<close>

theorem simulated_checkout_reaches_settings:
  assumes "simulation"
  shows "response (checkout simulation svc) = Redirect ''/success'' 302
       \<and> service_calls (checkout simulation svc) = []
       \<and> response (serve simulation svc \<lparr>path = ''/checkout'', query = q\<rparr>)
           = Redirect ''/success'' 302
       \<and> response (serve simulation svc (request_of ''/success'')) = Redirect ''/settings'' 302
       \<and> service_calls (serve simulation svc (request_of ''/success'')) = []
       \<and> response (follow 2 simulation svc \<lparr>path = ''/checkout'', query = q\<rparr>)
           = Rendered ''settings.html''
       \<and> service_calls (follow 2 simulation svc \<lparr>path = ''/checkout'', query = q\<rparr>) = []"
proof -
  have c: "checkout simulation svc =
             \<lparr>response = Redirect ''/success'' 302, service_calls = [],
              printed = [''Simulating Stripe Checkout (ENABLE_SIMULATION=True)'']\<rparr>"
    using assms by (simp add: checkout_def redirect_def)
  have r1: "request_of ''/success'' = \<lparr>path = ''/success'', query = []\<rparr>"
    by (simp add: request_of_def parse_query_def)
  have r2: "request_of ''/settings'' = \<lparr>path = ''/settings'', query = []\<rparr>"
    by (simp add: request_of_def parse_query_def)
  have s0: "serve simulation svc \<lparr>path = ''/checkout'', query = q\<rparr> = checkout simulation svc"
    by (simp add: serve_def)
  have s1: "serve simulation svc \<lparr>path = ''/success'', query = []\<rparr> = success [] svc"
    by (simp add: serve_def)
  have s2: "serve simulation svc \<lparr>path = ''/settings'', query = []\<rparr> = game_settings"
    by (simp add: serve_def)
  have su: "success [] svc =
              \<lparr>response = Redirect ''/settings'' 302, service_calls = [],
               printed = [''No session_id provided. This is either a simulated payment or direct access.'']\<rparr>"
    by (simp add: success_def redirect_def Let_def)
  have f0: "follow 0 simulation svc \<lparr>path = ''/settings'', query = []\<rparr> = game_settings"
    by (simp add: s2)
  have f1: "follow (Suc 0) simulation svc \<lparr>path = ''/success'', query = []\<rparr>
            = game_settings\<lparr>service_calls := [] @ service_calls game_settings,
                 printed := printed (success [] svc) @ printed game_settings\<rparr>"
    by (simp add: s1 su is_local_def r2 f0 Let_def del: follow.simps(1))
  have f2: "follow (Suc (Suc 0)) simulation svc \<lparr>path = ''/checkout'', query = q\<rparr>
            = (follow (Suc 0) simulation svc \<lparr>path = ''/success'', query = []\<rparr>)
                \<lparr>service_calls := [] @ service_calls (follow (Suc 0) simulation svc \<lparr>path = ''/success'', query = []\<rparr>),
                 printed := printed (checkout simulation svc)
                            @ printed (follow (Suc 0) simulation svc \<lparr>path = ''/success'', query = []\<rparr>)\<rparr>"
    using s0 c r1 by (simp add: is_local_def Let_def del: follow.simps(1))
  have two: "(2::nat) = Suc (Suc 0)" by simp
  show ?thesis
    unfolding two f2 f1
    by (simp add: c s0 r1 s1 su game_settings_def)
qed

theorem simulated_checkout_reaches_settings_witness:
  "response (checkout ENABLE_SIMULATION down_service) = Redirect ''/success'' 302
   \<and> response (follow 2 ENABLE_SIMULATION down_service \<lparr>path = ''/checkout'', query = []\<rparr>)
       = Rendered ''settings.html''
   \<and> service_calls (follow 2 ENABLE_SIMULATION down_service \<lparr>path = ''/checkout'', query = []\<rparr>)
       = []"
proof -
  have e: "ENABLE_SIMULATION" by (simp add: ENABLE_SIMULATION_def)
  show ?thesis
    using simulated_checkout_reaches_settings [OF e, of down_service "[]"] by simp
qed

text \<open>
  Claim C9. For every request to the success endpoint and whatever the payment service
  answers (no session id, an exception from the verification, a session that is not
  paid, or a paid one), the handler returns the redirect to the game-settings page: the
  response is the same for any two requests and any two payment services.
\<close>

theorem success_redirects_whatever_verification:
  "response (success q svc) = redirect (url_for Game_settings)
   \<and> response (success q svc) = Redirect ''/settings'' 302
   \<and> response (success q svc) = response (success q' svc')
   \<and> response (serve sim svc \<lparr>path = ''/success'', query = q\<rparr>) = Redirect ''/settings'' 302
   \<and> response (serve sim svc (request_of ''/settings'')) = Rendered ''settings.html''"
  by (simp add: success_def redirect_def Let_def serve_def request_of_def parse_query_def
      game_settings_def)

theorem success_redirects_whatever_verification_witness:
  "response (success [] down_service) = Redirect ''/settings'' 302
   \<and> service_calls (success [] down_service) = []
   \<and> response (success [(''session_id'', ''cs_1'')] down_service) = Redirect ''/settings'' 302
   \<and> printed (success [(''session_id'', ''cs_1'')] down_service)
       = [''Error verifying payment: connection refused'']
   \<and> response (success [(''session_id'', ''cs_1'')] unpaid_service) = Redirect ''/settings'' 302
   \<and> printed (success [(''session_id'', ''cs_1'')] unpaid_service)
       = [''Payment not complete for session cs_1'']"
  using success_redirects_whatever_verification [of "[]" down_service]
        success_redirects_whatever_verification [of "[(''session_id'', ''cs_1'')]" down_service]
        success_redirects_whatever_verification [of "[(''session_id'', ''cs_1'')]" unpaid_service]
  by (simp add: success_def Let_def down_service_def unpaid_service_def)

section \<open>The turn flag and the position's side to move\<close>

text \<open>
  In every state the game loop reaches from its start, for a rules library in which turns
  alternate, a turn flag that is not the human's colour implies that the position's side
  to move is not the human's either: the two indications of the engine's turn agree.
\<close>

lemma turn_inv_reset: "turns_alternate R \<Longrightarrow> turn_inv R (reset_game R s b e)"
  by (simp add: turn_inv_def select_inv_reset turns_alternate_def)

lemma turn_inv_resign: "turn_inv R s \<Longrightarrow> turn_inv R (resign_game R s)"
  by (simp add: turn_inv_def select_inv_resign)

lemma owned_by_unique: "owned_by p c \<Longrightarrow> owned_by p d \<Longrightarrow> c = d"
  by (simp add: owned_by_def split: option.splits)

lemma turn_inv_board_interaction:
  assumes lib: "turns_alternate R" and inv: "turn_inv R s"
    and mine: "current_turn s = player_color s"
  shows "turn_inv R (board_interaction R s pos now)"
proof -
  have sel: "select_inv R (board_interaction R s pos now)"
    using inv mine by (simp add: turn_inv_def select_inv_board_interaction)
  have "current_turn (board_interaction R s pos now) = player_color (board_interaction R s pos now)
        \<or> turn R (board (board_interaction R s pos now))
            \<noteq> player_color (board_interaction R s pos now)"
  proof (cases "\<exists>sq sel. get_square_from_mouse (player_color s) pos = Some sq
                  \<and> selected_square s = Some sel \<and> is_legal R (board s) (build_move R s sel sq)")
    case True
    then obtain sq sel where h: "get_square_from_mouse (player_color s) pos = Some sq"
      "selected_square s = Some sel" "is_legal R (board s) (build_move R s sel sq)" by blast
    have "owned_by (piece_at R (board s) (from_square (build_move R s sel sq))) (turn R (board s))"
      using lib h(3) unfolding turns_alternate_def by blast
    then have o1: "owned_by (piece_at R (board s) sel) (turn R (board s))"
      by (simp add: build_move_fields(1))
    have o2: "owned_by (piece_at R (board s) sel) (player_color s)"
      using inv h(2) by (simp add: turn_inv_def select_inv_def selection_ok_def)
    have t: "turn R (board s) = player_color s" using o1 o2 by (rule owned_by_unique)
    have "board_interaction R s pos now = apply_player_move R s (build_move R s sel sq) now"
      using h by (simp add: board_interaction_def Let_def)
    then show ?thesis using lib t by (simp add: turns_alternate_def)
  next
    case False
    then have "current_turn (board_interaction R s pos now) = current_turn s
               \<and> player_color (board_interaction R s pos now) = player_color s"
      by (auto simp add: board_interaction_def Let_def split: option.splits)
    then show ?thesis using mine by simp
  qed
  with sel show ?thesis by (simp add: turn_inv_def)
qed

lemma turn_inv_handle_event:
  assumes "turns_alternate R" "turn_inv R s"
  shows "turn_inv R (handle_event R s ev)"
proof (cases ev)
  case (Pair x e)
  show ?thesis
  proof (cases x)
    case QUIT
    with Pair assms(2) show ?thesis
      by (simp add: handle_event_def turn_inv_def select_inv_def selection_ok_def
          split: option.splits)
  next
    case OTHER_EVENT
    with Pair assms(2) show ?thesis by (simp add: handle_event_def)
  next
    case (MOUSEBUTTONDOWN btn pos)
    show ?thesis
      using assms Pair MOUSEBUTTONDOWN
      by (simp add: handle_event_def check_game_buttons_eq turn_inv_reset turn_inv_resign
          turn_inv_board_interaction)
  qed
qed

lemma turn_inv_handle_events:
  "turns_alternate R \<Longrightarrow> turn_inv R s \<Longrightarrow> turn_inv R (handle_events R s evs)"
  by (induction evs arbitrary: s) (simp_all add: turn_inv_handle_event)

lemma make_ai_move_turn:
  "current_turn (make_ai_move R s r) = player_color s
   \<or> (current_turn (make_ai_move R s r) = current_turn s
       \<and> board (make_ai_move R s r) = board s)"
  by (simp add: make_ai_move_def Let_def split: engine_reply.splits option.splits)

lemma turn_inv_ai_move_timing:
  assumes "turn_inv R s"
  shows "turn_inv R (ai_move_timing R s now r)"
proof (cases "ai_move_timing R s now r = s")
  case True
  with assms show ?thesis by simp
next
  case False
  then have m: "ai_move_timing R s now r = make_ai_move R s r"
    by (auto simp add: ai_move_timing_def split: option.splits if_splits)
  have sel: "select_inv R (make_ai_move R s r)"
    using select_inv_ai_move_timing [of R s now r] assms m by (simp add: turn_inv_def)
  show ?thesis
    using sel assms make_ai_move_turn [of R s r] by (auto simp add: m turn_inv_def)
qed

lemma turn_inv_frame: "turns_alternate R \<Longrightarrow> turn_inv R s \<Longrightarrow> turn_inv R (frame R s fi)"
  by (simp add: frame_def turn_inv_ai_move_timing turn_inv_handle_events)

lemma turn_inv_run_frames:
  "turns_alternate R \<Longrightarrow> turn_inv R s \<Longrightarrow> turn_inv R (run_frames R s fis)"
  by (induction fis arbitrary: s) (simp_all add: turn_inv_frame)

lemma turn_inv_start_playing: "turns_alternate R \<Longrightarrow> turn_inv R (start_playing R skill col e)"
  by (simp add: start_playing_def turn_inv_reset)

lemma turn_flag_agrees_with_position:
  assumes "turns_alternate R"
    and "s = handle_events R (run_frames R (start_playing R skill col e) fis) evs"
    and "current_turn s \<noteq> player_color s"
  shows "engine_to_move R s"
proof -
  have "turn_inv R s"
    unfolding assms(2)
    by (intro turn_inv_handle_events turn_inv_run_frames turn_inv_start_playing assms(1))
  then show ?thesis using assms(3) by (simp add: turn_inv_def engine_to_move_def)
qed

lemma mini_rules_turns_alternate: "turns_alternate mini_rules"
  by (auto simp add: turns_alternate_def mini_rules_def mini_new_board_def mini_push_def
      mini_is_legal_def owned_by_def split: option.splits)

lemma mini_rules_start_not_over: "\<not> is_game_over mini_rules (new_board mini_rules)"
  by (simp add: mini_defs)

section \<open>The result message while the game is on\<close>

text \<open>
  In every state the game loop reaches from its start, the result message is None as long
  as the game-over flag is clear.
\<close>

lemma message_inv_handle_event: "message_inv s \<Longrightarrow> message_inv (handle_event R s ev)"
proof (cases ev)
  case (Pair x e)
  assume inv: "message_inv s"
  show ?thesis
  proof (cases x)
    case QUIT
    with Pair inv show ?thesis by (simp add: handle_event_def message_inv_def)
  next
    case OTHER_EVENT
    with Pair inv show ?thesis by (simp add: handle_event_def)
  next
    case (MOUSEBUTTONDOWN btn pos)
    have r: "message_inv (reset_game R s True e)" by (simp add: message_inv_def)
    have g: "message_inv (resign_game R s)"
      using inv by (simp add: message_inv_def resign_game_def Let_def)
    have b: "message_inv (board_interaction R s pos now)" if "\<not> game_over s" for now
      using inv that
      by (simp add: message_inv_def board_interaction_def apply_player_move_def Let_def
          split: option.splits)
    show ?thesis
      using Pair MOUSEBUTTONDOWN inv r g b
      by (simp add: handle_event_def check_game_buttons_eq)
  qed
qed

lemma message_inv_handle_events:
  "message_inv s \<Longrightarrow> message_inv (handle_events R s evs)"
  by (induction evs arbitrary: s) (simp_all add: message_inv_handle_event)

lemma message_inv_ai_move_timing: "message_inv s \<Longrightarrow> message_inv (ai_move_timing R s now r)"
  by (auto simp add: ai_move_timing_def make_ai_move_def message_inv_def Let_def
      split: option.splits engine_reply.splits)

lemma message_inv_frame: "message_inv s \<Longrightarrow> message_inv (frame R s fi)"
  by (simp add: frame_def message_inv_ai_move_timing message_inv_handle_events)

lemma message_inv_run_frames: "message_inv s \<Longrightarrow> message_inv (run_frames R s fis)"
  by (induction fis arbitrary: s) (simp_all add: message_inv_frame)

lemma message_none_while_playing:
  assumes "s = handle_events R (run_frames R (start_playing R skill col e) fis) evs"
    and "\<not> game_over s"
  shows "game_result_message s = None"
proof -
  have "message_inv (start_playing R skill col e)"
    by (simp add: message_inv_def start_playing_def)
  then have "message_inv s"
    unfolding assms(1) by (intro message_inv_handle_events message_inv_run_frames)
  then show ?thesis using assms(2) by (simp add: message_inv_def)
qed

end
